theory Spec2Isabelle
  imports Main
begin

section \<open>Cards, suits and the values of the rules engine\<close>

text \<open>
  The engine is \<^verbatim>\<open>src/src/game.ts\<close>; the orchestration layer is
  \<^verbatim>\<open>src/src/server.ts\<close>. A card is the object \<^verbatim>\<open>{suit, rank}\<close>; the four
  suits are listed in the order of the constant \<^verbatim>\<open>SUITS\<close>.
\<close>

datatype Suit = S | H | D | C

record Card =
  suit :: Suit
  rank :: int

definition SUITS :: "Suit list" where
  "SUITS = [S, H, D, C]"

definition RANKS_ASC :: "int list" where
  "RANKS_ASC = [2, 3, 4, 5, 6, 7, 8, 9, 10, 11, 12, 13, 14]"

text \<open>
  Every \<^verbatim>\<open>throw new Error(...)\<close> of the engine is one of these values: a wrong
  phase, a wrong turn holder, a malformed bid, card token or suit (\<open>InputViolation\<close>),
  the dealer's forbidden bid (\<open>IllegalBid\<close>), a card that is not held or breaks the
  follow-suit rule (\<open>IllegalPlay\<close>), and the throw of \<^verbatim>\<open>_createBaseDeck\<close>.
  \<open>TypeError\<close> stands for the runtime's own exception when a property of
  \<^verbatim>\<open>undefined\<close> is read.
\<close>

datatype error =
  PhaseViolation | TurnViolation | InputViolation | IllegalBid | IllegalPlay
  | DeckSizeMismatch | TypeError

subsection \<open>compareCards\<close>

definition compareCards :: "Card \<Rightarrow> Card \<Rightarrow> Suit option \<Rightarrow> Suit option \<Rightarrow> int" where
  "compareCards a b leadSuit trumpSuit =
     (let aTrump = (Some (suit a) = trumpSuit);
          bTrump = (Some (suit b) = trumpSuit)
      in if aTrump \<and> \<not> bTrump then 1
         else if \<not> aTrump \<and> bTrump then - 1
         else
           (let aLead = (Some (suit a) = leadSuit);
                bLead = (Some (suit b) = leadSuit)
            in if aLead \<and> \<not> bLead then 1
               else if \<not> aLead \<and> bLead then - 1
               else if suit a \<noteq> suit b then 0
               else if rank a = rank b then 0
               else if rank a > rank b then 1 else - 1))"

subsection \<open>The base deck\<close>

definition minRankForPlayers :: "nat \<Rightarrow> int" where
  "minRankForPlayers n = 15 - 2 * int n"

text \<open>
  \<^verbatim>\<open>_createBaseDeck\<close> reads only \<^verbatim>\<open>this.numPlayers\<close>, so the model takes the seat
  count. The two nested loops push, suit by suit, the ranks not below the minimum.
\<close>

definition createBaseDeck :: "nat \<Rightarrow> error + Card list" where
  "createBaseDeck n =
     (let needed = 8 * n;
          minRank = minRankForPlayers n;
          deck = concat (map (\<lambda>s. map (\<lambda>r. \<lparr>suit = s, rank = r\<rparr>)
                                      (filter (\<lambda>r. r \<ge> minRank) RANKS_ASC)) SUITS)
      in if length deck \<noteq> needed then Inl DeckSizeMismatch else Inr deck)"


subsection \<open>JavaScript numbers used as indices and counters\<close>

text \<open>
  The index and counter fields hold integers, or \<^verbatim>\<open>NaN\<close> once a remainder by a seat
  count of zero or an addition to \<^verbatim>\<open>undefined\<close> has been computed. \<open>nth_js\<close> is
  the array read \<^verbatim>\<open>xs[i]\<close>, which yields \<^verbatim>\<open>undefined\<close> (here \<open>None\<close>) outside
  the array; \<open>jsmod\<close> is the operator \<^verbatim>\<open>%\<close>, whose result takes the sign of the
  dividend.
\<close>

datatype jsnum = Num int | NaN

fun nth_js :: "'a list \<Rightarrow> jsnum \<Rightarrow> 'a option" where
  "nth_js xs NaN = None"
| "nth_js xs (Num i) = (if 0 \<le> i \<and> i < int (length xs) then Some (xs ! nat i) else None)"

definition jsmod :: "int \<Rightarrow> nat \<Rightarrow> jsnum" where
  "jsmod a n = (if n = 0 then NaN
                else if 0 \<le> a then Num (a mod int n) else Num (- ((- a) mod int n)))"

fun jsadd :: "jsnum \<Rightarrow> int \<Rightarrow> jsnum" where
  "jsadd NaN d = NaN"
| "jsadd (Num a) d = Num (a + d)"

fun add_mod :: "jsnum \<Rightarrow> int \<Rightarrow> nat \<Rightarrow> jsnum" where
  "add_mod NaN d n = NaN"
| "add_mod (Num a) d n = jsmod (a + d) n"

text \<open>A property read with the key \<^verbatim>\<open>undefined\<close> is read under the name "undefined".\<close>

fun key_of :: "string option \<Rightarrow> string" where
  "key_of None = ''undefined''"
| "key_of (Some k) = k"

fun indexOf :: "'a list \<Rightarrow> 'a \<Rightarrow> int" where
  "indexOf [] x = - 1"
| "indexOf (y # ys) x = (if y = x then 0 else (let i = indexOf ys x in if i < 0 then - 1 else i + 1))"

subsection \<open>Card tokens: cardToString and stringToCard\<close>

definition suitChar :: "Suit \<Rightarrow> char" where
  "suitChar s = (case s of S \<Rightarrow> CHR ''S'' | H \<Rightarrow> CHR ''H'' | D \<Rightarrow> CHR ''D'' | C \<Rightarrow> CHR ''C'')"

definition digitChar :: "nat \<Rightarrow> char" where
  "digitChar d = ''0123456789'' ! (d mod 10)"

fun natToString :: "nat \<Rightarrow> string" where
  "natToString n = (if n < 10 then [digitChar n] else natToString (n div 10) @ [digitChar (n mod 10)])"

declare natToString.simps [simp del]

text \<open>
  \<^verbatim>\<open>String(r)\<close> for an integer \<open>r\<close>: its decimal digits, after a minus sign below
  zero. (From \<open>10^21\<close> on the runtime prints an exponent instead; the ranks of a deck
  are 2 to 14.)
\<close>

definition intToString :: "int \<Rightarrow> string" where
  "intToString r = (if r < 0 then CHR ''-'' # natToString (nat (- r)) else natToString (nat r))"

definition cardToString :: "Card \<Rightarrow> string" where
  "cardToString c =
     (let r = rank c;
          rs = (if r = 14 then ''A'' else if r = 13 then ''K'' else if r = 12 then ''Q''
                else if r = 11 then ''J'' else intToString r)
      in rs @ [suitChar (suit c)])"

definition suitOfString :: "string \<Rightarrow> Suit option" where
  "suitOfString s = (if s = ''S'' then Some S else if s = ''H'' then Some H
                     else if s = ''D'' then Some D else if s = ''C'' then Some C else None)"

text \<open>
  A card token comes from the client as an arbitrary string, here the list of its
  UTF-16 code units; \<open>codeUnits\<close> gives the code units of a string of Latin-1
  characters, such as the tokens that \<open>cardToString\<close> prints.
\<close>

type_synonym jsstring = "nat list"

definition codeUnits :: "string \<Rightarrow> jsstring" where
  "codeUnits s = map of_char s"

definition suitOfUnits :: "jsstring \<Rightarrow> Suit option" where
  "suitOfUnits s = (if s = codeUnits ''S'' then Some S else if s = codeUnits ''H'' then Some H
                    else if s = codeUnits ''D'' then Some D
                    else if s = codeUnits ''C'' then Some C else None)"

definition isDigit :: "nat \<Rightarrow> bool" where
  "isDigit u = (48 \<le> u \<and> u \<le> 57)"

definition digitVal :: "nat \<Rightarrow> nat" where
  "digitVal u = u - 48"

text \<open>
  The white space that \<^verbatim>\<open>parseInt\<close> trims: TAB, LF, VT, FF, CR, the space, the
  no-break space U+00A0, the other space separators U+1680, U+2000 to U+200A, U+202F,
  U+205F and U+3000, the line and paragraph separators U+2028 and U+2029, and U+FEFF.
\<close>

definition isSpace :: "nat \<Rightarrow> bool" where
  "isSpace u = (u \<in> {9, 10, 11, 12, 13, 32, 160, 5760, 8232, 8233, 8239, 8287, 12288, 65279}
                \<or> (8192 \<le> u \<and> u \<le> 8202))"

text \<open>
  The Number for a natural number \<open>m\<close>: \<open>m\<close> itself below \<open>2^53\<close>; above, \<open>m\<close> is
  rounded to 53 significant bits, a tie going to the even neighbour, and a result of
  \<open>2^1024\<close> or more is \<^verbatim>\<open>Infinity\<close> (\<open>None\<close>). \<open>bitlen m\<close> is the number of bits of \<open>m\<close>.
\<close>

fun bitlen :: "nat \<Rightarrow> nat" where
  "bitlen n = (if n = 0 then 0 else Suc (bitlen (n div 2)))"

declare bitlen.simps [simp del]

definition toDouble :: "nat \<Rightarrow> nat option" where
  "toDouble m =
     (if m < 2 ^ 53 then Some m
      else (let e = bitlen m - 53;
                q = m div 2 ^ e;
                r = m mod 2 ^ e;
                half = 2 ^ (e - 1);
                q' = (if r > half \<or> (r = half \<and> odd q) then q + 1 else q);
                v = q' * 2 ^ e
            in if v \<ge> 2 ^ 1024 then None else Some v))"

text \<open>
  What \<^verbatim>\<open>parseInt(r, 10)\<close> returns: \<^verbatim>\<open>NaN\<close>, an integer, or an infinity (\<open>True\<close> for
  the negative one). Leading white space is skipped, one sign is read, then the
  longest run of decimal digits; no digit gives \<^verbatim>\<open>NaN\<close>; the digits are read as a
  natural number, which becomes a Number as above and takes the sign. (The language
  lets an implementation read the digits after the twentieth as zeros; the runtime of
  this program, Node.js, rounds the exact value.)
\<close>

datatype parsed = PInt int | PInfinity bool | PNaN

definition parseInt10 :: "jsstring \<Rightarrow> parsed" where
  "parseInt10 r =
     (let r1 = dropWhile isSpace r;
          neg = (r1 \<noteq> [] \<and> hd r1 = 45);
          r2 = (if r1 \<noteq> [] \<and> (hd r1 = 45 \<or> hd r1 = 43) then tl r1 else r1);
          ds = takeWhile isDigit r2
      in if ds = [] then PNaN
         else (case toDouble (foldl (\<lambda>acc u. 10 * acc + digitVal u) 0 ds) of
                 None \<Rightarrow> PInfinity neg
               | Some v \<Rightarrow> PInt (if neg then - int v else int v)))"

text \<open>
  \<^verbatim>\<open>s.slice(-1)\<close> is the last code unit of the token (nothing for the empty token),
  \<^verbatim>\<open>s.slice(0, -1)\<close> the rest; \<^verbatim>\<open>Number.isInteger\<close> refuses \<^verbatim>\<open>NaN\<close> and the infinities.
\<close>

definition stringToCard :: "jsstring \<Rightarrow> error + Card" where
  "stringToCard s =
     (case suitOfUnits (if s = [] then [] else [last s]) of
        None \<Rightarrow> Inl InputViolation
      | Some su \<Rightarrow>
          (let r = butlast s;
               rk = (if r = codeUnits ''A'' then PInt 14 else if r = codeUnits ''K'' then PInt 13
                     else if r = codeUnits ''Q'' then PInt 12
                     else if r = codeUnits ''J'' then PInt 11
                     else parseInt10 r)
           in case rk of PInt k \<Rightarrow> Inr \<lparr>suit = su, rank = k\<rparr>
                       | _ \<Rightarrow> Inl InputViolation))"

subsection \<open>The hand schedule\<close>

definition buildSchedule :: "nat \<Rightarrow> nat list" where
  "buildSchedule X = replicate X 1 @ [2, 3, 4, 5, 6, 7] @ replicate X 8
                     @ [7, 6, 5, 4, 3, 2] @ replicate X 1"


section \<open>The session state (class WhistGame)\<close>

datatype Phase = waiting | choose_trump | bidding | playing | hand_end | game_end | trick_pause

record TrickEntry =
  pid :: string
  cardT :: Card

datatype StreakType = Plus | Minus

record Streak =
  stype :: "StreakType option"
  count :: int

text \<open>
  The objects keyed by player identifier are maps: \<open>None\<close> is an absent key. A bid is
  \<^verbatim>\<open>null\<close> (\<open>Some None\<close>) or an integer. The values of \<open>tricksWon\<close> and
  \<open>totalScores\<close> are numbers that \<^verbatim>\<open>+=\<close> turns into \<^verbatim>\<open>NaN\<close> when the key was absent.
  Player identifiers are connection identifiers and generated names of automated
  seats; none of them is taken to be the name of a property that every object
  inherits, so that an absent key reads as \<^verbatim>\<open>undefined\<close>.
\<close>

record WhistGame =
  playerIds :: "string list"
  dealerIndex :: jsnum
  schedule :: "nat list"
  handIndex :: nat
  totalScores :: "string \<rightharpoonup> jsnum"
  streaks :: "string \<rightharpoonup> Streak"
  phase :: Phase
  trumpSuit :: "Suit option"
  hands :: "string \<rightharpoonup> Card list"
  bids :: "string \<rightharpoonup> int option"
  tricksWon :: "string \<rightharpoonup> jsnum"
  currentTrick :: "TrickEntry list"
  leadSuit :: "Suit option"
  pendingPlayTurnIndex :: "jsnum option"
  bidTurnIndex :: jsnum
  playTurnIndex :: "jsnum option"

text \<open>
  A call either returns a value or throws; in both cases the object is left in some
  state, which the outcome carries. The \<^verbatim>\<open>PublicState\<close> snapshots that the actions
  return are read-only copies of that state, built without a throw, and are not part
  of the model.
\<close>

datatype 'r outcome = Returned 'r WhistGame | Threw error WhistGame

fun stateOf :: "'r outcome \<Rightarrow> WhistGame" where
  "stateOf (Returned r g) = g"
| "stateOf (Threw e g) = g"

definition numPlayers :: "WhistGame \<Rightarrow> nat" where
  "numPlayers g = length (playerIds g)"

text \<open>\<^verbatim>\<open>this.schedule[this.handIndex] || 1\<close>: an absent or zero entry reads as 1.\<close>

definition currentHandSize :: "WhistGame \<Rightarrow> nat" where
  "currentHandSize g =
     (if handIndex g < length (schedule g) \<and> schedule g ! handIndex g \<noteq> 0
      then schedule g ! handIndex g else 1)"

definition resetForNextHand :: "WhistGame \<Rightarrow> WhistGame" where
  "resetForNextHand g =
     fold (\<lambda>p g'. g'\<lparr>bids := (bids g')(p \<mapsto> None),
                      tricksWon := (tricksWon g')(p \<mapsto> Num 0),
                      hands := (hands g')(p \<mapsto> [])\<rparr>)
          (playerIds g)
          (g\<lparr>phase := waiting, trumpSuit := None, hands := Map.empty, bids := Map.empty,
             tricksWon := Map.empty, currentTrick := [], leadSuit := None,
             pendingPlayTurnIndex := None\<rparr>)"

text \<open>The constructor, with the \<^verbatim>\<open>dealerIndex\<close> argument written out.\<close>

definition newGame :: "string list \<Rightarrow> jsnum \<Rightarrow> WhistGame" where
  "newGame ids dealer =
     resetForNextHand
       \<lparr>playerIds = ids, dealerIndex = dealer, schedule = buildSchedule (length ids),
        handIndex = 0,
        totalScores = fold (\<lambda>p m. m(p \<mapsto> Num 0)) ids Map.empty,
        streaks = fold (\<lambda>p m. m(p \<mapsto> \<lparr>stype = None, count = 0\<rparr>)) ids Map.empty,
        phase = waiting, trumpSuit = None, hands = Map.empty, bids = Map.empty,
        tricksWon = Map.empty, currentTrick = [], leadSuit = None,
        pendingPlayTurnIndex = None, bidTurnIndex = Num 0, playTurnIndex = None\<rparr>"

subsection \<open>startHand\<close>

text \<open>
  \<^verbatim>\<open>shuffle\<close> is the Fisher-Yates loop; \<open>rnd i\<close> stands for the draw
  \<^verbatim>\<open>Math.floor(Math.random() * (i + 1))\<close> made at index \<open>i\<close>, reduced into \<open>0..i\<close>.
\<close>

fun shuffleLoop :: "(nat \<Rightarrow> nat) \<Rightarrow> nat \<Rightarrow> 'a list \<Rightarrow> 'a list" where
  "shuffleLoop rnd 0 arr = arr"
| "shuffleLoop rnd (Suc i) arr =
     (let j = rnd (Suc i) mod (Suc i + 1)
      in shuffleLoop rnd i (arr[Suc i := arr ! j, j := arr ! Suc i]))"

definition shuffle :: "(nat \<Rightarrow> nat) \<Rightarrow> 'a list \<Rightarrow> 'a list" where
  "shuffle rnd arr = shuffleLoop rnd (length arr - 1) arr"

text \<open>
  The comparator of the display sort; \<^verbatim>\<open>localeCompare\<close> on the one-letter suit
  names orders them C, D, H, S. The sort is stable, and so is the insertion below.
\<close>

definition localeCompare :: "Suit \<Rightarrow> Suit \<Rightarrow> int" where
  "localeCompare a b =
     (let x = (of_char (suitChar a) :: nat); y = (of_char (suitChar b) :: nat)
      in if x < y then - 1 else if y < x then 1 else 0)"

definition sortCmp :: "Card \<Rightarrow> Card \<Rightarrow> int" where
  "sortCmp a b = (if suit a = suit b then rank a - rank b else localeCompare (suit a) (suit b))"

fun insertCard :: "Card \<Rightarrow> Card list \<Rightarrow> Card list" where
  "insertCard x [] = [x]"
| "insertCard x (y # ys) = (if sortCmp x y \<le> 0 then x # y # ys else y # insertCard x ys)"

definition sortHand :: "Card list \<Rightarrow> Card list" where
  "sortHand xs = foldr insertCard xs []"

text \<open>
  One pass of the inner dealing loop over the seats \<open>ps\<close>: \<^verbatim>\<open>deck.pop()\<close> takes the
  last card; on an empty deck nothing is dealt; pushing onto a hand that does not exist
  is a runtime exception.
\<close>

fun dealRow :: "jsnum \<Rightarrow> nat list \<Rightarrow> Card list \<Rightarrow> WhistGame \<Rightarrow> (Card list) outcome" where
  "dealRow startIndex [] deck g = Returned deck g"
| "dealRow startIndex (p # ps) deck g =
     (let k = key_of (nth_js (playerIds g) (add_mod startIndex (int p) (numPlayers g)))
      in if deck = [] then dealRow startIndex ps deck g
         else (case hands g k of
                 None \<Rightarrow> Threw TypeError g
               | Some h \<Rightarrow> dealRow startIndex ps (butlast deck)
                             (g\<lparr>hands := (hands g)(k \<mapsto> h @ [last deck])\<rparr>)))"

fun dealRows :: "nat \<Rightarrow> jsnum \<Rightarrow> Card list \<Rightarrow> WhistGame \<Rightarrow> (Card list) outcome" where
  "dealRows 0 startIndex deck g = Returned deck g"
| "dealRows (Suc i) startIndex deck g =
     (case dealRow startIndex [0 ..< numPlayers g] deck g of
        Threw e g' \<Rightarrow> Threw e g'
      | Returned deck' g' \<Rightarrow> dealRows i startIndex deck' g')"

fun sortHands :: "string list \<Rightarrow> WhistGame \<Rightarrow> unit outcome" where
  "sortHands [] g = Returned () g"
| "sortHands (p # ps) g =
     (case hands g p of
        None \<Rightarrow> Threw TypeError g
      | Some h \<Rightarrow> sortHands ps (g\<lparr>hands := (hands g)(p \<mapsto> sortHand h)\<rparr>))"

definition startHand :: "(nat \<Rightarrow> nat) \<Rightarrow> WhistGame \<Rightarrow> unit outcome" where
  "startHand rnd g0 =
     (let g = resetForNextHand g0;
          handSize = currentHandSize g
      in case createBaseDeck (numPlayers g) of
           Inl e \<Rightarrow> Threw e g
         | Inr base \<Rightarrow>
             (let deck = shuffle rnd base
              in if handSize \<noteq> 8 \<and> deck = [] then Threw TypeError g
                 else
                   (let g1 = (if handSize \<noteq> 8 then g\<lparr>trumpSuit := Some (suit (hd deck))\<rparr> else g);
                        startIndex = add_mod (dealerIndex g1) 1 (numPlayers g1)
                    in case dealRows handSize startIndex deck g1 of
                         Threw e g' \<Rightarrow> Threw e g'
                       | Returned deck' g2 \<Rightarrow>
                           (case sortHands (playerIds g2) g2 of
                              Threw e g' \<Rightarrow> Threw e g'
                            | Returned u g3 \<Rightarrow>
                                Returned ()
                                  (g3\<lparr>bidTurnIndex := startIndex,
                                      phase := (if handSize = 8 then choose_trump else bidding),
                                      playTurnIndex := None\<rparr>)))))"


subsection \<open>Bidding: placeBid and chooseTrump\<close>

definition getCurrentBidder :: "WhistGame \<Rightarrow> string option" where
  "getCurrentBidder g = nth_js (playerIds g) (bidTurnIndex g)"

fun sumBidsLoop :: "(string \<rightharpoonup> int option) \<Rightarrow> string \<Rightarrow> string list \<Rightarrow> int \<Rightarrow> int" where
  "sumBidsLoop bs excludePid [] acc = acc"
| "sumBidsLoop bs excludePid (p # ps) acc =
     (if p = excludePid then sumBidsLoop bs excludePid ps acc
      else (case bs p of
              Some (Some b) \<Rightarrow> sumBidsLoop bs excludePid ps (acc + b)
            | _ \<Rightarrow> sumBidsLoop bs excludePid ps acc))"

definition sumBidsSoFar :: "WhistGame \<Rightarrow> string \<Rightarrow> int" where
  "sumBidsSoFar g excludePid = sumBidsLoop (bids g) excludePid (playerIds g) 0"

definition isNumberBid :: "int option option \<Rightarrow> bool" where
  "isNumberBid b = (case b of Some (Some n) \<Rightarrow> True | _ \<Rightarrow> False)"

text \<open>
  The bid reaches the engine as the result of \<^verbatim>\<open>parseInt\<close> or as the count made
  by the automated player: an integer, or a value that \<^verbatim>\<open>Number.isInteger\<close>
  refuses, for which \<open>NaN\<close> stands (an infinity is refused by the same test).
\<close>

definition placeBid :: "WhistGame \<Rightarrow> string \<Rightarrow> jsnum \<Rightarrow> unit outcome" where
  "placeBid g p bid =
     (if phase g \<noteq> bidding then Threw PhaseViolation g
      else if Some p \<noteq> getCurrentBidder g then Threw TurnViolation g
      else
        (let handSize = int (currentHandSize g)
         in case bid of
              NaN \<Rightarrow> Threw InputViolation g
            | Num b \<Rightarrow>
                if b < 0 \<or> b > handSize then Threw InputViolation g
                else
                  (let isDealer = (Some p = nth_js (playerIds g) (dealerIndex g))
                   in if isDealer \<and> b = handSize - sumBidsSoFar g p then Threw IllegalBid g
                      else
                        (let g1 = g\<lparr>bids := (bids g)(p \<mapsto> Some b),
                                    bidTurnIndex := add_mod (bidTurnIndex g) 1 (numPlayers g)\<rparr>;
                             allBids = list_all (\<lambda>q. isNumberBid (bids g1 q)) (playerIds g1)
                         in if allBids
                            then Returned ()
                                   (g1\<lparr>phase := playing,
                                       playTurnIndex :=
                                         Some (add_mod (dealerIndex g1) 1 (numPlayers g1)),
                                       currentTrick := [], leadSuit := None\<rparr>)
                            else Returned () g1))))"

text \<open>
  The suit arrives as \<^verbatim>\<open>String(suit)\<close>; \<^verbatim>\<open>SUITS.includes\<close> admits the four
  one-letter names and the string is not looked into otherwise.
\<close>

definition chooseTrump :: "WhistGame \<Rightarrow> string \<Rightarrow> string \<Rightarrow> unit outcome" where
  "chooseTrump g p suitStr =
     (if phase g \<noteq> choose_trump then Threw PhaseViolation g
      else if Some p \<noteq> getCurrentBidder g then Threw TurnViolation g
      else (case suitOfString suitStr of
              None \<Rightarrow> Threw InputViolation g
            | Some su \<Rightarrow> Returned () (g\<lparr>trumpSuit := Some su, phase := bidding\<rparr>)))"

subsection \<open>Scoring: _scoreHand\<close>

text \<open>
  \<^verbatim>\<open>bid === won\<close> compares a bid (absent, \<^verbatim>\<open>null\<close> or an integer) with a counter
  (absent, an integer or \<^verbatim>\<open>NaN\<close>): two absent values are equal, two integers are
  compared, everything else differs.
\<close>

definition strictEq :: "int option option \<Rightarrow> jsnum option \<Rightarrow> bool" where
  "strictEq bid won =
     (case (bid, won) of
        (None, None) \<Rightarrow> True
      | (Some (Some b), Some (Num w)) \<Rightarrow> b = w
      | _ \<Rightarrow> False)"

definition numOf :: "jsnum option \<Rightarrow> jsnum" where
  "numOf v = (case v of None \<Rightarrow> NaN | Some x \<Rightarrow> x)"

definition bidOrZero :: "int option option \<Rightarrow> int" where
  "bidOrZero bid = (case bid of Some (Some b) \<Rightarrow> b | _ \<Rightarrow> 0)"

text \<open>Lines 376 to 381: the score of the hand itself, \<open>s\<close> being the score so far.\<close>

definition handScore :: "int option option \<Rightarrow> jsnum option \<Rightarrow> jsnum \<Rightarrow> jsnum" where
  "handScore bid won s =
     (if strictEq bid won
      then (case (s, numOf won) of (Num a, Num w) \<Rightarrow> Num (a + (5 + w)) | _ \<Rightarrow> NaN)
      else (case (s, numOf won) of (Num a, Num w) \<Rightarrow> Num (a - \<bar>bidOrZero bid - w\<bar>) | _ \<Rightarrow> NaN))"

text \<open>
  Lines 388 to 406: the streak \<open>st\<close> is advanced by the outcome of the hand; at a
  count of five the flat adjustment is applied to the score and the streak is cleared.
\<close>

definition streakStep :: "bool \<Rightarrow> Streak \<Rightarrow> jsnum \<Rightarrow> Streak \<times> jsnum" where
  "streakStep success st0 s =
     (let outcome = (if success then Plus else Minus);
          st = (if stype st0 = Some outcome then st0\<lparr>count := count st0 + 1\<rparr>
                else st0\<lparr>stype := Some outcome, count := 1\<rparr>)
      in if count st \<ge> 5
         then (st\<lparr>stype := None, count := 0\<rparr>,
               (if outcome = Plus then jsadd s 10 else jsadd s (- 10)))
         else (st, s))"

definition scoreSeat :: "string \<Rightarrow> WhistGame \<Rightarrow> WhistGame" where
  "scoreSeat p g =
     (let bid = bids g p;
          won = tricksWon g p;
          success = strictEq bid won;
          s1 = handScore bid won (numOf (totalScores g p));
          st0 = (case streaks g p of None \<Rightarrow> \<lparr>stype = None, count = 0\<rparr> | Some x \<Rightarrow> x);
          (st, s2) = streakStep success st0 s1
      in g\<lparr>totalScores := (totalScores g)(p \<mapsto> s2), streaks := (streaks g)(p \<mapsto> st)\<rparr>)"

definition scoreHand :: "WhistGame \<Rightarrow> WhistGame" where
  "scoreHand g = fold scoreSeat (playerIds g) g"


subsection \<open>Playing: playCard\<close>

definition getCurrentPlayer :: "WhistGame \<Rightarrow> string option" where
  "getCurrentPlayer g =
     (if phase g \<noteq> playing then None
      else nth_js (playerIds g) (case playTurnIndex g of None \<Rightarrow> Num 0 | Some i \<Rightarrow> i))"

text \<open>\<^verbatim>\<open>_hasSuit\<close>, on the hand of the seat: no suit (\<^verbatim>\<open>null\<close>) is never held.\<close>

definition hasSuit :: "Card list \<Rightarrow> Suit option \<Rightarrow> bool" where
  "hasSuit hand su = (case su of None \<Rightarrow> False | Some x \<Rightarrow> list_ex (\<lambda>c. suit c = x) hand)"

text \<open>The checks of lines 319 to 331 on a card that the seat holds: \<open>None\<close> when it may be played.\<close>

definition followCheck :: "WhistGame \<Rightarrow> Card list \<Rightarrow> Card \<Rightarrow> error option" where
  "followCheck g hand c =
     (if currentTrick g \<noteq> [] then
        (let mustFollow = hasSuit hand (leadSuit g)
         in if mustFollow \<and> Some (suit c) \<noteq> leadSuit g then Some IllegalPlay
            else if \<not> mustFollow then
              (let mustTrump = (trumpSuit g \<noteq> None \<and> hasSuit hand (trumpSuit g))
               in if mustTrump \<and> Some (suit c) \<noteq> trumpSuit g then Some IllegalPlay else None)
            else None)
      else None)"

text \<open>The loop of lines 344 to 353 over the filled trick \<open>e0 # es\<close>.\<close>

fun winnerLoop :: "Suit option \<Rightarrow> Suit option \<Rightarrow> string \<times> Card \<Rightarrow> TrickEntry list \<Rightarrow> string \<times> Card" where
  "winnerLoop ls ts (winner, bestCard) [] = (winner, bestCard)"
| "winnerLoop ls ts (winner, bestCard) (e # es) =
     (let c = cardT e;
          cmp = compareCards c bestCard ls ts
      in if cmp = 1 then winnerLoop ls ts (pid e, c) es
         else winnerLoop ls ts (winner, bestCard) es)"

definition resolveTrick :: "TrickEntry \<Rightarrow> TrickEntry list \<Rightarrow> Suit option \<Rightarrow> Suit option \<Rightarrow> string \<times> Card" where
  "resolveTrick e0 es ls ts = winnerLoop ls ts (pid e0, cardT e0) es"

text \<open>
  \<^verbatim>\<open>playerIds.every(p => hands[p].length === 0)\<close> stops at the first seat that holds
  a card; a seat without a hand is a runtime exception (\<open>None\<close>).
\<close>

fun handOver :: "(string \<rightharpoonup> Card list) \<Rightarrow> string list \<Rightarrow> bool option" where
  "handOver hs [] = Some True"
| "handOver hs (p # ps) =
     (case hs p of None \<Rightarrow> None
                 | Some h \<Rightarrow> if h = [] then handOver hs ps else Some False)"

text \<open>
  The value returned is \<^verbatim>\<open>(trickEnded, trickWinner)\<close>. \<^verbatim>\<open>_removeCardFromHand\<close>
  splices out the first card with the suit and rank asked for, which is \<open>remove1\<close>; its
  own throw cannot be reached, the card having been found in the hand just before.
\<close>

definition playCard :: "WhistGame \<Rightarrow> string \<Rightarrow> jsstring \<Rightarrow> (bool \<times> string option) outcome" where
  "playCard g p cardStr =
     (if phase g \<noteq> playing then Threw PhaseViolation g
      else if Some p \<noteq> getCurrentPlayer g then Threw TurnViolation g
      else
        (case stringToCard cardStr of
           Inl e \<Rightarrow> Threw e g
         | Inr c \<Rightarrow>
             (case hands g p of
                None \<Rightarrow> Threw TypeError g
              | Some hand \<Rightarrow>
                  if c \<notin> set hand then Threw IllegalPlay g
                  else
                    (case followCheck g hand c of
                       Some e \<Rightarrow> Threw e g
                     | None \<Rightarrow>
                         (let g1 = g\<lparr>hands := (hands g)(p \<mapsto> remove1 c hand)\<rparr>;
                              g2 = (if currentTrick g1 = [] then g1\<lparr>leadSuit := Some (suit c)\<rparr> else g1);
                              g3 = g2\<lparr>currentTrick := currentTrick g2 @ [\<lparr>pid = p, cardT = c\<rparr>]\<rparr>
                          in if length (currentTrick g3) < numPlayers g3
                             then Returned (False, None)
                                    (g3\<lparr>playTurnIndex :=
                                          Some (add_mod (case playTurnIndex g3 of None \<Rightarrow> Num 0 | Some i \<Rightarrow> i)
                                                        1 (numPlayers g3))\<rparr>)
                             else
                               (let (winner, bestCard) =
                                      resolveTrick (hd (currentTrick g3)) (tl (currentTrick g3))
                                                   (leadSuit g3) (trumpSuit g3);
                                    g4 = g3\<lparr>tricksWon :=
                                              (tricksWon g3)(winner \<mapsto> jsadd (numOf (tricksWon g3 winner)) 1)\<rparr>
                                in case handOver (hands g4) (playerIds g4) of
                                     None \<Rightarrow> Threw TypeError g4
                                   | Some True \<Rightarrow>
                                       (let g5 = scoreHand g4;
                                            isLast = (int (handIndex g5) \<ge> int (length (schedule g5)) - 1)
                                        in Returned (True, Some winner)
                                             (g5\<lparr>phase := (if isLast then game_end else hand_end)\<rparr>))
                                   | Some False \<Rightarrow>
                                       Returned (True, Some winner)
                                         (g4\<lparr>phase := trick_pause,
                                             pendingPlayTurnIndex :=
                                               Some (Num (indexOf (playerIds g4) winner))\<rparr>)))))))"

subsection \<open>nextHand and resumeAfterTrick\<close>

definition nextHand :: "(nat \<Rightarrow> nat) \<Rightarrow> WhistGame \<Rightarrow> unit outcome" where
  "nextHand rnd g =
     (if phase g \<noteq> hand_end then Threw PhaseViolation g
      else startHand rnd (g\<lparr>handIndex := handIndex g + 1,
                            dealerIndex := add_mod (dealerIndex g) 1 (numPlayers g)\<rparr>))"

definition resumeAfterTrick :: "WhistGame \<Rightarrow> unit outcome" where
  "resumeAfterTrick g =
     (if phase g \<noteq> trick_pause then Threw PhaseViolation g
      else Returned ()
             (g\<lparr>currentTrick := [], leadSuit := None,
                playTurnIndex := (case pendingPlayTurnIndex g of None \<Rightarrow> playTurnIndex g
                                                             | Some i \<Rightarrow> Some i),
                pendingPlayTurnIndex := None, phase := playing\<rparr>))"

subsection \<open>replacePlayerId\<close>

text \<open>
  \<open>rekey m oldId newId\<close> is the guarded pair \<^verbatim>\<open>m[newId] = m[oldId]; delete m[oldId]\<close>;
  the guard holds exactly when the key is present (a hand is an array, which is truthy).
\<close>

definition rekey :: "(string \<rightharpoonup> 'v) \<Rightarrow> string \<Rightarrow> string \<Rightarrow> (string \<rightharpoonup> 'v)" where
  "rekey m oldId newId =
     (case m oldId of None \<Rightarrow> m | Some v \<Rightarrow> (m(newId \<mapsto> v))(oldId := None))"

definition replacePlayerId :: "WhistGame \<Rightarrow> string \<Rightarrow> string \<Rightarrow> WhistGame" where
  "replacePlayerId g oldId newId =
     (if oldId = newId then g
      else (let idx = indexOf (playerIds g) oldId
            in if idx = - 1 then g
               else g\<lparr>playerIds := (playerIds g)[nat idx := newId],
                      hands := rekey (hands g) oldId newId,
                      bids := rekey (bids g) oldId newId,
                      tricksWon := rekey (tricksWon g) oldId newId,
                      totalScores := rekey (totalScores g) oldId newId,
                      streaks := rekey (streaks g) oldId newId,
                      currentTrick :=
                        (if currentTrick g \<noteq> []
                         then map (\<lambda>t. if pid t = oldId then t\<lparr>pid := newId\<rparr> else t) (currentTrick g)
                         else currentTrick g)\<rparr>))"

section \<open>The orchestration layer (server.ts)\<close>

subsection \<open>buildHandsViewFor\<close>





subsection \<open>The automated player's card (maybeBotAct, playing branch)\<close>

text \<open>
  \<open>botChoice\<close> is the card picked inside the timer callback for the seat \<open>p\<close> whose
  turn it is: \<^verbatim>\<open>hand[0]\<close>, or the first card of the lead suit when the trick is
  under way and the seat holds one. \<open>Inr None\<close> is the \<^verbatim>\<open>undefined\<close> read from an
  empty hand.
\<close>

definition botChoice :: "WhistGame \<Rightarrow> string \<Rightarrow> error + Card option" where
  "botChoice g p =
     (case hands g p of
        None \<Rightarrow> Inl TypeError
      | Some hand \<Rightarrow>
          if currentTrick g = [] then Inr (if hand = [] then None else Some (hd hand))
          else (let sameSuit = filter (\<lambda>c. Some (suit c) = leadSuit g) hand
                in if sameSuit \<noteq> [] then Inr (Some (hd sameSuit))
                   else Inr (if hand = [] then None else Some (hd hand))))"

text \<open>
  The callback submits the choice through \<open>playCard\<close>; an exception is caught and
  dropped, and then neither the state broadcast nor the next automated turn follows.
  \<open>None\<close> is the early \<^verbatim>\<open>return\<close> on no choice and the exception raised before the
  call.
\<close>

definition botPlay :: "WhistGame \<Rightarrow> string \<Rightarrow> (bool \<times> string option) outcome option" where
  "botPlay g p =
     (case botChoice g p of
        Inl e \<Rightarrow> None
      | Inr None \<Rightarrow> None
      | Inr (Some c) \<Rightarrow> Some (playCard g p (codeUnits (cardToString c))))"


section \<open>Auxiliary notions for the statements\<close>

text \<open>
  These two functions are not in the source; they name the classes that the branches
  of \<open>compareCards\<close> tell apart, for use in statements and proofs.
\<close>

definition cardClass :: "Suit option \<Rightarrow> Suit option \<Rightarrow> Card \<Rightarrow> nat" where
  "cardClass l t c = (if Some (suit c) = t then 2 else if Some (suit c) = l then 1 else 0)"

definition inPlay :: "Suit option \<Rightarrow> Suit option \<Rightarrow> Card \<Rightarrow> bool" where
  "inPlay l t c = (Some (suit c) = l \<or> Some (suit c) = t)"

text \<open>
  A session state used to run the definitions on concrete inputs: three seats, the
  fourth hand of the schedule (two cards each), seat \<open>p1\<close> dealing, hearts trump.
  Seat \<open>p2\<close> has led the ace of spades and it is the turn of the third seat.
\<close>

definition sampleGame :: WhistGame where
  "sampleGame =
     \<lparr>playerIds = [''p1'', ''p2'', ''bot''],
      dealerIndex = Num 0,
      schedule = [1, 1, 1, 2, 3, 4, 5, 6, 7, 8, 8, 8, 7, 6, 5, 4, 3, 2, 1, 1, 1],
      handIndex = 3,
      totalScores = [''p1'' \<mapsto> Num 9, ''p2'' \<mapsto> Num 16, ''bot'' \<mapsto> Num 3],
      streaks = [''p1'' \<mapsto> \<lparr>stype = Some Minus, count = 1\<rparr>,
                 ''p2'' \<mapsto> \<lparr>stype = Some Plus, count = 3\<rparr>,
                 ''bot'' \<mapsto> \<lparr>stype = Some Plus, count = 1\<rparr>],
      phase = playing,
      trumpSuit = Some H,
      hands = [''p1'' \<mapsto> [\<lparr>suit = D, rank = 13\<rparr>, \<lparr>suit = S, rank = 12\<rparr>],
               ''p2'' \<mapsto> [\<lparr>suit = D, rank = 11\<rparr>],
               ''bot'' \<mapsto> [\<lparr>suit = C, rank = 9\<rparr>, \<lparr>suit = H, rank = 10\<rparr>]],
      bids = [''p1'' \<mapsto> Some 0, ''p2'' \<mapsto> Some 1, ''bot'' \<mapsto> Some 0],
      tricksWon = [''p1'' \<mapsto> Num 0, ''p2'' \<mapsto> Num 0, ''bot'' \<mapsto> Num 0],
      currentTrick = [\<lparr>pid = ''p2'', cardT = \<lparr>suit = S, rank = 14\<rparr>\<rparr>],
      leadSuit = Some S,
      pendingPlayTurnIndex = None,
      bidTurnIndex = Num 1,
      playTurnIndex = Some (Num 2)\<rparr>"

text \<open>The renaming of one identifier, as a statement of what re-keying a seat list means.\<close>

definition renamed :: "string \<Rightarrow> string \<Rightarrow> string \<Rightarrow> string" where
  "renamed oldId newId q = (if q = oldId then newId else q)"

text \<open>
  What one pass of the loop of \<open>scoreHand\<close> computes for a seat, from the four values it
  reads under the seat's key: the new score and the new streak.
\<close>

definition streakOf :: "Streak option \<Rightarrow> Streak" where
  "streakOf st = (case st of None \<Rightarrow> \<lparr>stype = None, count = 0\<rparr> | Some x \<Rightarrow> x)"

definition seatResult :: "int option option \<Rightarrow> jsnum option \<Rightarrow> jsnum option \<Rightarrow> Streak option
                          \<Rightarrow> jsnum \<times> Streak" where
  "seatResult bid won sc st =
     (let (st', s2) = streakStep (strictEq bid won) (streakOf st) (handScore bid won (numOf sc))
      in (s2, st'))"

text \<open>
  The scoring rule in the words of the specification: the score of a hand for a
  recorded bid (\<open>None\<close> is a bid still \<^verbatim>\<open>null\<close>) and \<open>w\<close> tricks won; whether the hand
  brings the seat's run to five; and the flat adjustment paid then.
\<close>

definition handDelta :: "int option \<Rightarrow> int \<Rightarrow> int" where
  "handDelta bid w =
     (if bid = Some w then 5 + w else - \<bar>(case bid of None \<Rightarrow> 0 | Some b \<Rightarrow> b) - w\<bar>)"

definition runReachesFive :: "bool \<Rightarrow> Streak \<Rightarrow> bool" where
  "runReachesFive success st =
     (stype st = Some (if success then Plus else Minus) \<and> count st + 1 \<ge> 5)"

definition streakBonus :: "bool \<Rightarrow> Streak \<Rightarrow> int" where
  "streakBonus success st =
     (if runReachesFive success st then (if success then 10 else - 10) else 0)"

text \<open>
  A session state at the moment the last trick of a three-card hand has been resolved
  and the hand is about to be scored: seat \<open>p2\<close> bid three and won three, after four
  successful hands in a row.
\<close>

definition scoringGame :: WhistGame where
  "scoringGame =
     \<lparr>playerIds = [''p1'', ''p2'', ''bot''],
      dealerIndex = Num 1,
      schedule = [1, 1, 1, 2, 3, 4, 5, 6, 7, 8, 8, 8, 7, 6, 5, 4, 3, 2, 1, 1, 1],
      handIndex = 4,
      totalScores = [''p1'' \<mapsto> Num 8, ''p2'' \<mapsto> Num 22, ''bot'' \<mapsto> Num 8],
      streaks = [''p1'' \<mapsto> \<lparr>stype = Some Minus, count = 2\<rparr>,
                 ''p2'' \<mapsto> \<lparr>stype = Some Plus, count = 4\<rparr>,
                 ''bot'' \<mapsto> \<lparr>stype = Some Plus, count = 2\<rparr>],
      phase = playing,
      trumpSuit = Some H,
      hands = [''p1'' \<mapsto> [], ''p2'' \<mapsto> [], ''bot'' \<mapsto> []],
      bids = [''p1'' \<mapsto> Some 1, ''p2'' \<mapsto> Some 3, ''bot'' \<mapsto> Some 0],
      tricksWon = [''p1'' \<mapsto> Num 0, ''p2'' \<mapsto> Num 3, ''bot'' \<mapsto> Num 0],
      currentTrick = [\<lparr>pid = ''p2'', cardT = \<lparr>suit = H, rank = 14\<rparr>\<rparr>,
                      \<lparr>pid = ''bot'', cardT = \<lparr>suit = C, rank = 9\<rparr>\<rparr>,
                      \<lparr>pid = ''p1'', cardT = \<lparr>suit = D, rank = 10\<rparr>\<rparr>],
      leadSuit = Some H,
      pendingPlayTurnIndex = None,
      bidTurnIndex = Num 2,
      playTurnIndex = Some (Num 0)\<rparr>"

text \<open>The same seats with the streak of \<open>p2\<close> just cleared and its score at 40.\<close>

definition restartedGame :: WhistGame where
  "restartedGame =
     scoringGame\<lparr>totalScores := (totalScores scoringGame)(''p2'' \<mapsto> Num 40),
                 streaks := (streaks scoringGame)(''p2'' \<mapsto> \<lparr>stype = None, count = 0\<rparr>)\<rparr>"

text \<open>
  The dealer's hook in the words of the specification: the seats other than the
  dealer's slot, in seat order, and the sum of the bids they have recorded (a seat
  that has not bid yet contributes nothing).
\<close>

definition nonDealerSeats :: "WhistGame \<Rightarrow> string list" where
  "nonDealerSeats g =
     map (\<lambda>i. playerIds g ! i)
         (filter (\<lambda>i. Num (int i) \<noteq> dealerIndex g) [0 ..< length (playerIds g)])"

definition recordedBidSum :: "WhistGame \<Rightarrow> int" where
  "recordedBidSum g = sum_list (map (\<lambda>q. bidOrZero (bids g q)) (nonDealerSeats g))"

text \<open>
  The same seats as \<open>sampleGame\<close> during the bidding of that hand: \<open>bot\<close> and \<open>p2\<close>
  have bid 0 and 1, and the dealer \<open>p1\<close> is to bid.
\<close>

definition biddingGame :: WhistGame where
  "biddingGame =
     sampleGame\<lparr>phase := bidding,
                hands := [''p1'' \<mapsto> [\<lparr>suit = D, rank = 13\<rparr>, \<lparr>suit = S, rank = 12\<rparr>],
                          ''p2'' \<mapsto> [\<lparr>suit = D, rank = 11\<rparr>, \<lparr>suit = S, rank = 14\<rparr>],
                          ''bot'' \<mapsto> [\<lparr>suit = C, rank = 9\<rparr>, \<lparr>suit = H, rank = 10\<rparr>]],
                bids := [''p1'' \<mapsto> None, ''p2'' \<mapsto> Some 1, ''bot'' \<mapsto> Some 0],
                currentTrick := [], leadSuit := None,
                bidTurnIndex := Num 0, playTurnIndex := None\<rparr>"



text \<open>The errors with which an action rejects a request, as opposed to a failure of the runtime or of deck construction.\<close>

definition isRejection :: "error \<Rightarrow> bool" where
  "isRejection e = (e = PhaseViolation \<or> e = TurnViolation \<or> e = InputViolation
                    \<or> e = IllegalBid \<or> e = IllegalPlay)"

text \<open>
  The state reached from \<open>sampleGame\<close> once \<open>bot\<close> has played the ten of hearts: the
  dealer \<open>p1\<close> plays the third and last card of the trick.
\<close>

definition fillingGame :: WhistGame where
  "fillingGame =
     sampleGame\<lparr>hands := (hands sampleGame)(''bot'' \<mapsto> [\<lparr>suit = C, rank = 9\<rparr>]),
                currentTrick := [\<lparr>pid = ''p2'', cardT = \<lparr>suit = S, rank = 14\<rparr>\<rparr>,
                                 \<lparr>pid = ''bot'', cardT = \<lparr>suit = H, rank = 10\<rparr>\<rparr>],
                playTurnIndex := Some (Num 0)\<rparr>"

text \<open>
  The shape of a session state that the statements about seats rely on: the seat
  identifiers are pairwise distinct and every seat has an entry in each keyed
  structure. \<open>keysKept g g'\<close> says that \<open>g'\<close> has the seat list of \<open>g\<close> and at least its
  keys. \<open>reachable\<close> holds of the states the engine gets to from a roster of
  distinct identifiers: after the constructor, after any call of an action, whether
  it returns or throws, and after a re-keying to an identifier that no seat has.
\<close>

definition seated :: "WhistGame \<Rightarrow> bool" where
  "seated g =
     (distinct (playerIds g)
      \<and> list_all (\<lambda>p. hands g p \<noteq> None \<and> bids g p \<noteq> None \<and> tricksWon g p \<noteq> None
                       \<and> totalScores g p \<noteq> None \<and> streaks g p \<noteq> None) (playerIds g))"

definition keysKept :: "WhistGame \<Rightarrow> WhistGame \<Rightarrow> bool" where
  "keysKept g g' =
     (playerIds g' = playerIds g
      \<and> (\<forall>k. (hands g k \<noteq> None \<longrightarrow> hands g' k \<noteq> None)
             \<and> (bids g k \<noteq> None \<longrightarrow> bids g' k \<noteq> None)
             \<and> (tricksWon g k \<noteq> None \<longrightarrow> tricksWon g' k \<noteq> None)
             \<and> (totalScores g k \<noteq> None \<longrightarrow> totalScores g' k \<noteq> None)
             \<and> (streaks g k \<noteq> None \<longrightarrow> streaks g' k \<noteq> None)))"

inductive reachable :: "WhistGame \<Rightarrow> bool" where
  constructed: "distinct ids \<Longrightarrow> reachable (newGame ids dealer)"
| started: "reachable g \<Longrightarrow> reachable (stateOf (startHand rnd g))"
| bid_placed: "reachable g \<Longrightarrow> reachable (stateOf (placeBid g p bid))"
| trump_chosen: "reachable g \<Longrightarrow> reachable (stateOf (chooseTrump g p suitStr))"
| card_played: "reachable g \<Longrightarrow> reachable (stateOf (playCard g p cardStr))"
| hand_advanced: "reachable g \<Longrightarrow> reachable (stateOf (nextHand rnd g))"
| trick_resumed: "reachable g \<Longrightarrow> reachable (stateOf (resumeAfterTrick g))"
| rejoined: "reachable g \<Longrightarrow> newId \<notin> set (playerIds g) \<Longrightarrow> reachable (replacePlayerId g oldId newId)"

section \<open>Properties of the deck and of trick resolution\<close>

lemma suit_cases [simp]: "C \<noteq> s \<Longrightarrow> D \<noteq> s \<Longrightarrow> H \<noteq> s \<Longrightarrow> S = s"
  by (cases s) auto

lemma createBaseDeck_large: "7 \<le> n \<Longrightarrow> createBaseDeck n = Inl DeckSizeMismatch"
  by (simp add: createBaseDeck_def Let_def minRankForPlayers_def RANKS_ASC_def SUITS_def)

lemma createBaseDeck_small:
  assumes "n \<le> 6"
  shows "\<exists>deck. createBaseDeck n = Inr deck \<and> length deck = 8 * n \<and> distinct deck
           \<and> (\<forall>s. length (filter (\<lambda>c. suit c = s) deck) = 2 * n)
           \<and> (\<forall>c \<in> set deck. minRankForPlayers n \<le> rank c)
           \<and> (0 < n \<longrightarrow> (\<exists>c \<in> set deck. rank c = minRankForPlayers n))"
proof -
  from assms consider "n = 0" | "n = 1" | "n = 2" | "n = 3" | "n = 4" | "n = 5" | "n = 6"
    by linarith
  then show ?thesis
  proof cases
    case 1 then show ?thesis
      by (simp add: createBaseDeck_def Let_def minRankForPlayers_def RANKS_ASC_def SUITS_def)
  next
    case 2 then show ?thesis
      by (simp add: createBaseDeck_def Let_def minRankForPlayers_def RANKS_ASC_def SUITS_def)
  next
    case 3 then show ?thesis
      by (simp add: createBaseDeck_def Let_def minRankForPlayers_def RANKS_ASC_def SUITS_def)
  next
    case 4 then show ?thesis
      by (simp add: createBaseDeck_def Let_def minRankForPlayers_def RANKS_ASC_def SUITS_def)
  next
    case 5 then show ?thesis
      by (simp add: createBaseDeck_def Let_def minRankForPlayers_def RANKS_ASC_def SUITS_def)
  next
    case 6 then show ?thesis
      by (simp add: createBaseDeck_def Let_def minRankForPlayers_def RANKS_ASC_def SUITS_def)
  next
    case 7 then show ?thesis
      by (simp add: createBaseDeck_def Let_def minRankForPlayers_def RANKS_ASC_def SUITS_def)
  qed
qed

text \<open>
  Claim C9, as stated, asks for a deck-size-mismatch error at every seat count outside
  3..6. The only check in \<^verbatim>\<open>_createBaseDeck\<close> compares the number of cards built with
  \<open>8 * n\<close>, and for two seats the sixteen cards of rank 11 and above pass it: no error
  is raised below three seats.
\<close>

theorem C9_two_seats_counterexample:
  "createBaseDeck 2 \<noteq> Inl DeckSizeMismatch \<and> map_sum id length (createBaseDeck 2) = Inr 16"
  by (simp add: createBaseDeck_def Let_def minRankForPlayers_def RANKS_ASC_def SUITS_def)

text \<open>
  Claim C9, amended: base-deck construction succeeds for every seat count \<open>n\<close> up to 6,
  in particular for 3, 4, 5 and 6, producing exactly \<open>8 * n\<close> pairwise distinct cards,
  \<open>2 * n\<close> of each suit, none below rank \<open>15 - 2 * n\<close> and (for a non-empty deck) one
  of that rank; it fails with the deck-size-mismatch error for every \<open>n\<close> from 7 on.
\<close>

theorem C9_createBaseDeck:
  "(n \<le> 6 \<longrightarrow>
      (\<exists>deck. createBaseDeck n = Inr deck \<and> length deck = 8 * n \<and> distinct deck
         \<and> (\<forall>s. length (filter (\<lambda>c. suit c = s) deck) = 2 * n)
         \<and> (\<forall>c \<in> set deck. 15 - 2 * int n \<le> rank c)
         \<and> (0 < n \<longrightarrow> (\<exists>c \<in> set deck. rank c = 15 - 2 * int n))))
   \<and> (7 \<le> n \<longrightarrow> createBaseDeck n = Inl DeckSizeMismatch)"
  using createBaseDeck_small [of n] createBaseDeck_large [of n]
  by (simp add: minRankForPlayers_def)

theorem C9_createBaseDeck_witness:
  "(4::nat) \<le> 6 \<and> (\<exists>deck. createBaseDeck 4 = Inr deck \<and> length deck = 32 \<and> distinct deck
        \<and> length (filter (\<lambda>c. suit c = H) deck) = 8)
   \<and> (7::nat) \<le> 7 \<and> createBaseDeck 7 = Inl DeckSizeMismatch"
  using C9_createBaseDeck [of 4] C9_createBaseDeck [of 7] by auto

subsection \<open>The comparison of two cards\<close>

text \<open>
  A card falls in one of three classes for a given lead and trump suit: trump, lead
  suit, or neither. \<open>compareCards\<close> orders by class first and by rank within one suit.
\<close>

lemma cmp_same: "compareCards a a l t = 0"
  by (simp add: compareCards_def Let_def)

lemma cmp_values:
  "compareCards a b l t = - 1 \<or> compareCards a b l t = 0 \<or> compareCards a b l t = 1"
  by (simp add: compareCards_def Let_def)

lemma cmp_gt_iff:
  "compareCards a b l t = 1 \<longleftrightarrow>
     cardClass l t b < cardClass l t a
     \<or> (cardClass l t a = cardClass l t b \<and> suit a = suit b \<and> rank b < rank a)"
  by (simp add: compareCards_def Let_def cardClass_def)

lemma cmp_lt_iff:
  "compareCards a b l t = - 1 \<longleftrightarrow>
     cardClass l t a < cardClass l t b
     \<or> (cardClass l t a = cardClass l t b \<and> suit a = suit b \<and> rank a < rank b)"
  by (simp add: compareCards_def Let_def cardClass_def)

lemma cmp_flip: "compareCards a b l t = 1 \<longleftrightarrow> compareCards b a l t = - 1"
  unfolding cmp_gt_iff cmp_lt_iff by auto

lemma cmp_chain:
  "compareCards a b l t = 1 \<Longrightarrow> compareCards b c l t = 1 \<Longrightarrow> compareCards a c l t = 1"
  unfolding cmp_gt_iff by auto

lemma same_suit_rank: "suit (a::Card) = suit b \<Longrightarrow> rank a = rank b \<Longrightarrow> a = b"
  by simp

lemma cmp_decides:
  assumes ne: "(a::Card) \<noteq> b"
    and h: "suit a = suit b \<or> inPlay l t a \<or> inPlay l t b"
  shows "compareCards a b l t \<noteq> 0"
proof -
  have r: "suit a = suit b \<Longrightarrow> rank a \<noteq> rank b"
    using ne same_suit_rank by blast
  show ?thesis
    using h r by (auto simp add: compareCards_def Let_def inPlay_def)
qed

lemma cmp_discards:
  "suit a \<noteq> suit b \<and> \<not> inPlay l t a \<and> \<not> inPlay l t b \<Longrightarrow> compareCards a b l t = 0"
  by (auto simp: compareCards_def inPlay_def Let_def)

lemma beats_inPlay: "inPlay l t b \<Longrightarrow> compareCards a b l t = 1 \<Longrightarrow> inPlay l t a"
  unfolding cmp_gt_iff by (auto simp add: inPlay_def cardClass_def split: if_splits)


subsection \<open>The winner of a filled trick\<close>

text \<open>
  Invariant of the loop: the best card so far is a trump or lead-suit card, belongs to
  an entry already seen, and beats every other card already seen.
\<close>

lemma winnerLoop_inv:
  assumes "inPlay l t best"
    and "\<exists>x \<in> set seen. pid x = w \<and> cardT x = best"
    and "\<forall>x \<in> set seen. cardT x \<noteq> best \<longrightarrow> compareCards best (cardT x) l t = 1"
    and "winnerLoop l t (w, best) es = (w', best')"
  shows "(\<exists>x \<in> set (seen @ es). pid x = w' \<and> cardT x = best') \<and>
         (\<forall>x \<in> set (seen @ es). cardT x \<noteq> best' \<longrightarrow> compareCards best' (cardT x) l t = 1)"
  using assms
proof (induction es arbitrary: w best seen)
  case Nil
  then show ?case by simp
next
  case (Cons e es)
  show ?case
  proof (cases "compareCards (cardT e) best l t = 1")
    case True
    have r: "inPlay l t (cardT e)"
      using beats_inPlay [OF Cons.prems(1) True] .
    have ex: "\<exists>x \<in> set (seen @ [e]). pid x = pid e \<and> cardT x = cardT e"
      by simp
    have dom: "\<forall>x \<in> set (seen @ [e]). cardT x \<noteq> cardT e \<longrightarrow> compareCards (cardT e) (cardT x) l t = 1"
    proof (intro ballI impI)
      fix x
      assume x: "x \<in> set (seen @ [e])" and ne: "cardT x \<noteq> cardT e"
      then have xs: "x \<in> set seen" by auto
      show "compareCards (cardT e) (cardT x) l t = 1"
      proof (cases "cardT x = best")
        case True
        then show ?thesis using \<open>compareCards (cardT e) best l t = 1\<close> by simp
      next
        case False
        then have "compareCards best (cardT x) l t = 1"
          using Cons.prems(3) xs by blast
        then show ?thesis
          using cmp_chain [OF \<open>compareCards (cardT e) best l t = 1\<close>] by blast
      qed
    qed
    have step: "winnerLoop l t (pid e, cardT e) es = (w', best')"
      using Cons.prems(4) True by (simp add: Let_def)
    from Cons.IH [OF r ex dom step] show ?thesis by simp
  next
    case False
    have ex: "\<exists>x \<in> set (seen @ [e]). pid x = w \<and> cardT x = best"
      using Cons.prems(2) by auto
    have dom: "\<forall>x \<in> set (seen @ [e]). cardT x \<noteq> best \<longrightarrow> compareCards best (cardT x) l t = 1"
    proof (intro ballI impI)
      fix x
      assume x: "x \<in> set (seen @ [e])" and ne: "cardT x \<noteq> best"
      show "compareCards best (cardT x) l t = 1"
      proof (cases "x = e")
        case True
        have nz: "compareCards (cardT e) best l t \<noteq> 0"
          using cmp_decides [of "cardT e" best l t] ne True Cons.prems(1) by auto
        have "compareCards (cardT e) best l t = - 1"
          using nz False cmp_values [of "cardT e" best l t] by blast
        then show ?thesis
          using cmp_flip [of best "cardT e" l t] True by simp
      next
        case False
        then show ?thesis using x ne Cons.prems(3) by auto
      qed
    qed
    have step: "winnerLoop l t (w, best) es = (w', best')"
      using Cons.prems(4) False by (simp add: Let_def)
    from Cons.IH [OF Cons.prems(1) ex dom step] show ?thesis by simp
  qed
qed

lemma resolveTrick_max:
  assumes "l = Some (suit (cardT e0))"
  shows "(\<exists>x \<in> set (e0 # es). resolveTrick e0 es l t = (pid x, cardT x)) \<and>
         (\<forall>x \<in> set (e0 # es). cardT x \<noteq> snd (resolveTrick e0 es l t) \<longrightarrow>
              compareCards (snd (resolveTrick e0 es l t)) (cardT x) l t = 1)"
proof -
  obtain w' best' where res: "resolveTrick e0 es l t = (w', best')"
    by (cases "resolveTrick e0 es l t") auto
  have lead: "inPlay l t (cardT e0)"
    using assms by (simp add: inPlay_def)
  have loop: "winnerLoop l t (pid e0, cardT e0) es = (w', best')"
    using res by (simp add: resolveTrick_def)
  have "(\<exists>x \<in> set ([e0] @ es). pid x = w' \<and> cardT x = best') \<and>
        (\<forall>x \<in> set ([e0] @ es). cardT x \<noteq> best' \<longrightarrow> compareCards best' (cardT x) l t = 1)"
    by (rule winnerLoop_inv [OF lead _ _ loop]) simp_all
  then show ?thesis
    using res by auto
qed

lemma scoreSeat_table:
  "currentTrick (scoreSeat q g) = currentTrick g \<and> leadSuit (scoreSeat q g) = leadSuit g
   \<and> trumpSuit (scoreSeat q g) = trumpSuit g"
  by (simp add: scoreSeat_def Let_def split: prod.splits)

lemma scoreHand_table:
  "currentTrick (scoreHand g) = currentTrick g \<and> leadSuit (scoreHand g) = leadSuit g
   \<and> trumpSuit (scoreHand g) = trumpSuit g"
proof -
  have "currentTrick (fold scoreSeat ps g) = currentTrick g \<and> leadSuit (fold scoreSeat ps g) = leadSuit g
        \<and> trumpSuit (fold scoreSeat ps g) = trumpSuit g" for ps
    by (induction ps arbitrary: g) (simp_all add: scoreSeat_table)
  then show ?thesis by (simp add: scoreHand_def)
qed

lemma playCard_trick_end:
  assumes "playCard g p cardStr = Returned (True, Some w) g'"
  shows "\<exists>c. currentTrick g' = currentTrick g @ [\<lparr>pid = p, cardT = c\<rparr>]
           \<and> leadSuit g' = (if currentTrick g = [] then Some (suit c) else leadSuit g)
           \<and> trumpSuit g' = trumpSuit g
           \<and> w = fst (resolveTrick (hd (currentTrick g')) (tl (currentTrick g'))
                                    (leadSuit g') (trumpSuit g'))"
  using assms
  by (auto simp: playCard_def Let_def scoreHand_table
        split: if_splits sum.splits option.splits prod.splits bool.splits)

lemma playCard_winner_max:
  assumes played: "playCard g p cardStr = Returned (True, Some w) g'"
    and lead: "currentTrick g \<noteq> [] \<longrightarrow> leadSuit g = Some (suit (cardT (hd (currentTrick g))))"
  shows "\<exists>x \<in> set (currentTrick g'). pid x = w
           \<and> (\<forall>y \<in> set (currentTrick g'). cardT y \<noteq> cardT x \<longrightarrow>
                  compareCards (cardT x) (cardT y) (leadSuit g') (trumpSuit g') = 1)"
proof -
  from playCard_trick_end [OF played] obtain c where
    t: "currentTrick g' = currentTrick g @ [\<lparr>pid = p, cardT = c\<rparr>]"
    and l: "leadSuit g' = (if currentTrick g = [] then Some (suit c) else leadSuit g)"
    and w: "w = fst (resolveTrick (hd (currentTrick g')) (tl (currentTrick g'))
                                  (leadSuit g') (trumpSuit g'))"
    by blast
  have ne: "currentTrick g' \<noteq> []" using t by simp
  then have split: "currentTrick g' = hd (currentTrick g') # tl (currentTrick g')" by simp
  have first: "leadSuit g' = Some (suit (cardT (hd (currentTrick g'))))"
    using t l lead by (cases "currentTrick g") simp_all
  from resolveTrick_max [OF first, of "tl (currentTrick g')" "trumpSuit g'"] split
  obtain x where x: "x \<in> set (currentTrick g')"
      "resolveTrick (hd (currentTrick g')) (tl (currentTrick g')) (leadSuit g') (trumpSuit g')
         = (pid x, cardT x)"
    and best: "\<forall>y \<in> set (currentTrick g').
        cardT y \<noteq> snd (resolveTrick (hd (currentTrick g')) (tl (currentTrick g')) (leadSuit g') (trumpSuit g'))
        \<longrightarrow> compareCards (snd (resolveTrick (hd (currentTrick g')) (tl (currentTrick g')) (leadSuit g') (trumpSuit g')))
               (cardT y) (leadSuit g') (trumpSuit g') = 1"
    by metis
  show ?thesis
    using x best w by (intro bexI [of _ x]) simp_all
qed

text \<open>
  Claim C3, as stated, makes the comparison total on any set of distinct cards of a
  trick. Two discards of different suits, neither trump nor lead suit, compare as 0
  in both directions: with spades led and hearts trump, the nine of diamonds and the
  ten of clubs are not ordered.
\<close>

theorem C3_discards_counterexample:
  "\<lparr>suit = D, rank = 9\<rparr> \<noteq> \<lparr>suit = C, rank = 10\<rparr>
   \<and> compareCards \<lparr>suit = D, rank = 9\<rparr> \<lparr>suit = C, rank = 10\<rparr> (Some S) (Some H) = 0
   \<and> compareCards \<lparr>suit = C, rank = 10\<rparr> \<lparr>suit = D, rank = 9\<rparr> (Some S) (Some H) = 0"
  by (simp add: compareCards_def)

text \<open>
  Claim C3, amended: for every lead suit and trump suit the comparison of
  \<open>compareCards\<close> is a strict partial order on cards (no card beats itself, \<open>a\<close> beats
  \<open>b\<close> exactly when \<open>b\<close> loses to \<open>a\<close>, and beating is transitive); it decides every
  pair of distinct cards that share a suit or of which one is a trump or a lead-suit
  card, and leaves unordered two cards of different suits that are neither; and when
  a trick whose first card has the lead suit is resolved, the declared
  winner holds a card of the trick that beats every other card of the trick. This is
  so for the winner that \<open>playCard\<close> returns when its card fills the trick, the lead
  suit of a trick under way being the suit of its first card.
\<close>

theorem C3_order_and_winner:
  "compareCards a a l t = 0
   \<and> (compareCards a b l t = 1 \<longleftrightarrow> compareCards b a l t = - 1)
   \<and> (compareCards a b l t = 1 \<and> compareCards b c l t = 1 \<longrightarrow> compareCards a c l t = 1)
   \<and> (a \<noteq> b \<and> (suit a = suit b \<or> inPlay l t a \<or> inPlay l t b) \<longrightarrow> compareCards a b l t \<noteq> 0)
   \<and> (suit a \<noteq> suit b \<and> \<not> inPlay l t a \<and> \<not> inPlay l t b \<longrightarrow> compareCards a b l t = 0)
   \<and> (l = Some (suit (cardT e0)) \<longrightarrow>
        (\<exists>x \<in> set (e0 # es). resolveTrick e0 es l t = (pid x, cardT x))
        \<and> (\<forall>x \<in> set (e0 # es). cardT x \<noteq> snd (resolveTrick e0 es l t) \<longrightarrow>
               compareCards (snd (resolveTrick e0 es l t)) (cardT x) l t = 1))
   \<and> (playCard g p cardStr = Returned (True, Some w) g'
        \<and> (currentTrick g \<noteq> [] \<longrightarrow> leadSuit g = Some (suit (cardT (hd (currentTrick g)))))
       \<longrightarrow>
        (\<exists>x \<in> set (currentTrick g'). pid x = w
           \<and> (\<forall>y \<in> set (currentTrick g'). cardT y \<noteq> cardT x \<longrightarrow>
                  compareCards (cardT x) (cardT y) (leadSuit g') (trumpSuit g') = 1)))"
proof (intro conjI impI)
  show "compareCards a a l t = 0" by (rule cmp_same)
  show "compareCards a b l t = 1 \<longleftrightarrow> compareCards b a l t = - 1" by (rule cmp_flip)
  show "compareCards a c l t = 1" if "compareCards a b l t = 1 \<and> compareCards b c l t = 1"
    using that cmp_chain by blast
  show "compareCards a b l t \<noteq> 0" if "a \<noteq> b \<and> (suit a = suit b \<or> inPlay l t a \<or> inPlay l t b)"
    using that cmp_decides by blast
  show "compareCards a b l t = 0" if "suit a \<noteq> suit b \<and> \<not> inPlay l t a \<and> \<not> inPlay l t b"
    using that by (rule cmp_discards)
  show "\<exists>x \<in> set (e0 # es). resolveTrick e0 es l t = (pid x, cardT x)" if "l = Some (suit (cardT e0))"
    using resolveTrick_max [OF that] by blast
  show "\<forall>x \<in> set (e0 # es). cardT x \<noteq> snd (resolveTrick e0 es l t) \<longrightarrow>
          compareCards (snd (resolveTrick e0 es l t)) (cardT x) l t = 1" if "l = Some (suit (cardT e0))"
    using resolveTrick_max [OF that] by blast
  show "\<exists>x \<in> set (currentTrick g'). pid x = w
           \<and> (\<forall>y \<in> set (currentTrick g'). cardT y \<noteq> cardT x \<longrightarrow>
                  compareCards (cardT x) (cardT y) (leadSuit g') (trumpSuit g') = 1)"
    if "playCard g p cardStr = Returned (True, Some w) g'
        \<and> (currentTrick g \<noteq> [] \<longrightarrow> leadSuit g = Some (suit (cardT (hd (currentTrick g)))))"
    using that playCard_winner_max [of g p cardStr w g'] by blast
qed

lemma fillingGame_last_card:
  "playCard fillingGame ''p1'' (codeUnits ''QS'')
     = Returned (True, Some ''bot'')
         (fillingGame\<lparr>hands := (hands fillingGame)(''p1'' \<mapsto> [\<lparr>suit = D, rank = 13\<rparr>]),
                      currentTrick := currentTrick fillingGame
                                      @ [\<lparr>pid = ''p1'', cardT = \<lparr>suit = S, rank = 12\<rparr>\<rparr>],
                      tricksWon := (tricksWon fillingGame)(''bot'' \<mapsto> Num 1),
                      phase := trick_pause,
                      pendingPlayTurnIndex := Some (Num 2)\<rparr>)"
proof -
  have tok: "stringToCard (codeUnits ''QS'') = Inr \<lparr>suit = S, rank = 12\<rparr>"
    by (simp add: stringToCard_def suitOfUnits_def codeUnits_def)
  have st: "phase fillingGame = playing" "getCurrentPlayer fillingGame = Some ''p1''"
    "hands fillingGame ''p1'' = Some [\<lparr>suit = D, rank = 13\<rparr>, \<lparr>suit = S, rank = 12\<rparr>]"
    "leadSuit fillingGame = Some S" "trumpSuit fillingGame = Some H"
    "playerIds fillingGame = [''p1'', ''p2'', ''bot'']"
    "currentTrick fillingGame = [\<lparr>pid = ''p2'', cardT = \<lparr>suit = S, rank = 14\<rparr>\<rparr>,
                                 \<lparr>pid = ''bot'', cardT = \<lparr>suit = H, rank = 10\<rparr>\<rparr>]"
    "tricksWon fillingGame ''bot'' = Some (Num 0)"
    by (simp_all add: fillingGame_def sampleGame_def getCurrentPlayer_def)
  have ho: "handOver ((hands fillingGame)(''p1'' \<mapsto> [\<lparr>suit = D, rank = 13\<rparr>])) [''p1'', ''p2'', ''bot'']
              = Some False"
    by simp
  show ?thesis
    by (simp add: playCard_def tok st ho followCheck_def hasSuit_def Let_def numPlayers_def
          resolveTrick_def compareCards_def numOf_def)
qed

theorem C3_order_and_winner_witness:
  "compareCards \<lparr>suit = H, rank = 7\<rparr> \<lparr>suit = S, rank = 14\<rparr> (Some S) (Some H) = 1
   \<and> compareCards \<lparr>suit = S, rank = 14\<rparr> \<lparr>suit = D, rank = 9\<rparr> (Some S) (Some H) = 1
   \<and> compareCards \<lparr>suit = H, rank = 7\<rparr> \<lparr>suit = D, rank = 9\<rparr> (Some S) (Some H) = 1
   \<and> Some S = Some (suit (cardT \<lparr>pid = ''p1'', cardT = \<lparr>suit = S, rank = 14\<rparr>\<rparr>))
   \<and> resolveTrick \<lparr>pid = ''p1'', cardT = \<lparr>suit = S, rank = 14\<rparr>\<rparr>
        [\<lparr>pid = ''p2'', cardT = \<lparr>suit = D, rank = 9\<rparr>\<rparr>, \<lparr>pid = ''p3'', cardT = \<lparr>suit = H, rank = 7\<rparr>\<rparr>]
        (Some S) (Some H) = (''p3'', \<lparr>suit = H, rank = 7\<rparr>)
   \<and> leadSuit fillingGame = Some (suit (cardT (hd (currentTrick fillingGame))))
   \<and> (case playCard fillingGame ''p1'' (codeUnits ''QS'') of Returned r g' \<Rightarrow> r | Threw e g' \<Rightarrow> (False, None))
       = (True, Some ''bot'')
   \<and> map cardT (currentTrick (stateOf (playCard fillingGame ''p1'' (codeUnits ''QS''))))
       = [\<lparr>suit = S, rank = 14\<rparr>, \<lparr>suit = H, rank = 10\<rparr>, \<lparr>suit = S, rank = 12\<rparr>]
   \<and> compareCards \<lparr>suit = H, rank = 10\<rparr> \<lparr>suit = S, rank = 14\<rparr>
        (leadSuit (stateOf (playCard fillingGame ''p1'' (codeUnits ''QS''))))
        (trumpSuit (stateOf (playCard fillingGame ''p1'' (codeUnits ''QS'')))) = 1"
proof -
  have lead: "leadSuit fillingGame = Some (suit (cardT (hd (currentTrick fillingGame))))"
    by (simp add: fillingGame_def sampleGame_def)
  show ?thesis
    using C3_order_and_winner [of "\<lparr>suit = H, rank = 7\<rparr>" "Some S" "Some H" "\<lparr>suit = S, rank = 14\<rparr>"
        "\<lparr>suit = D, rank = 9\<rparr>" "\<lparr>pid = ''p1'', cardT = \<lparr>suit = S, rank = 14\<rparr>\<rparr>"
        "[\<lparr>pid = ''p2'', cardT = \<lparr>suit = D, rank = 9\<rparr>\<rparr>, \<lparr>pid = ''p3'', cardT = \<lparr>suit = H, rank = 7\<rparr>\<rparr>]"
        fillingGame "''p1''" "codeUnits ''QS''" "''bot''" "stateOf (playCard fillingGame ''p1'' (codeUnits ''QS''))"]
      lead
    by (simp add: fillingGame_last_card compareCards_def resolveTrick_def)
       (simp add: fillingGame_def sampleGame_def)
qed

section \<open>Properties of replacePlayerId\<close>

lemma indexOf_ge: "- 1 \<le> indexOf xs x"
  by (induction xs) (auto simp: Let_def)

lemma indexOf_absent: "indexOf xs x = - 1 \<longleftrightarrow> x \<notin> set xs"
proof (induction xs)
  case Nil
  then show ?case by simp
next
  case (Cons y ys)
  have "- 1 \<le> indexOf ys x" by (rule indexOf_ge)
  with Cons show ?case by (auto simp: Let_def)
qed

lemma indexOf_present:
  "x \<in> set xs \<Longrightarrow> 0 \<le> indexOf xs x \<and> nat (indexOf xs x) < length xs \<and> xs ! nat (indexOf xs x) = x"
proof (induction xs)
  case Nil
  then show ?case by simp
next
  case (Cons y ys)
  show ?case
  proof (cases "y = x")
    case True
    then show ?thesis by simp
  next
    case False
    then have "x \<in> set ys" using Cons.prems by simp
    from Cons.IH [OF this] False show ?thesis
      by (simp add: Let_def nat_add_distrib)
  qed
qed

text \<open>
  Claim C10: for every session state, \<open>replacePlayerId\<close> with an old identifier that
  does not occur in the seat list, or with the old identifier equal to the new one,
  returns the state with every field unchanged; the function has no throw and the
  model no error value.
\<close>

theorem C10_replacePlayerId_noop:
  "oldId \<notin> set (playerIds g) \<or> oldId = newId \<Longrightarrow> replacePlayerId g oldId newId = g"
  by (auto simp: replacePlayerId_def Let_def indexOf_absent)

theorem C10_replacePlayerId_noop_witness:
  "''ghost'' \<notin> set (playerIds sampleGame)
   \<and> replacePlayerId sampleGame ''ghost'' ''p9'' = sampleGame
   \<and> ''p2'' \<in> set (playerIds sampleGame)
   \<and> replacePlayerId sampleGame ''p2'' ''p2'' = sampleGame"
proof -
  have seats: "''ghost'' \<notin> set (playerIds sampleGame)" "''p2'' \<in> set (playerIds sampleGame)"
    by (simp_all add: sampleGame_def)
  show ?thesis
    using C10_replacePlayerId_noop [of "''ghost''" sampleGame "''p9''"]
          C10_replacePlayerId_noop [of "''p2''" sampleGame "''p2''"] seats
    by simp
qed


lemma rekey_old: "oldId \<noteq> newId \<Longrightarrow> rekey m oldId newId oldId = None"
  by (simp add: rekey_def split: option.splits)

lemma rekey_new: "oldId \<noteq> newId \<Longrightarrow> m oldId = Some v \<Longrightarrow> rekey m oldId newId newId = Some v"
  by (simp add: rekey_def)

lemma rekey_other: "k \<noteq> oldId \<Longrightarrow> k \<noteq> newId \<Longrightarrow> rekey m oldId newId k = m k"
  by (simp add: rekey_def split: option.splits)

lemma update_first_distinct:
  "distinct xs \<Longrightarrow> x \<in> set xs \<Longrightarrow> xs[nat (indexOf xs x) := y] = map (renamed x y) xs"
proof (induction xs)
  case Nil
  then show ?case by simp
next
  case (Cons z zs)
  show ?case
  proof (cases "z = x")
    case True
    then have "x \<notin> set zs" using Cons.prems(1) by simp
    then have "map (renamed x y) zs = zs"
      by (induction zs) (auto simp: renamed_def)
    moreover have "renamed x y x = y" by (simp add: renamed_def)
    ultimately show ?thesis using True by simp
  next
    case False
    then have mem: "x \<in> set zs" using Cons.prems(2) by simp
    have d: "distinct zs" using Cons.prems(1) by simp
    have pos: "0 \<le> indexOf zs x" using indexOf_present [OF mem] by simp
    have "nat (indexOf zs x + 1) = Suc (nat (indexOf zs x))" using pos by simp
    moreover have "renamed x y z = z" using False by (simp add: renamed_def)
    ultimately show ?thesis using False Cons.IH [OF d mem] pos
      by (simp add: Let_def)
  qed
qed

lemma replacePlayerId_fields:
  assumes "oldId \<noteq> newId" and "oldId \<in> set (playerIds g)"
  shows "replacePlayerId g oldId newId =
           g\<lparr>playerIds := (playerIds g)[nat (indexOf (playerIds g) oldId) := newId],
             hands := rekey (hands g) oldId newId,
             bids := rekey (bids g) oldId newId,
             tricksWon := rekey (tricksWon g) oldId newId,
             totalScores := rekey (totalScores g) oldId newId,
             streaks := rekey (streaks g) oldId newId,
             currentTrick := map (\<lambda>t. if pid t = oldId then t\<lparr>pid := newId\<rparr> else t) (currentTrick g)\<rparr>"
proof -
  have "indexOf (playerIds g) oldId \<noteq> - 1"
    using assms(2) by (simp add: indexOf_absent)
  then show ?thesis
    using assms(1) by (cases "currentTrick g = []") (simp_all add: replacePlayerId_def Let_def)
qed

text \<open>
  Claim C5, as stated, covers every new identifier and every state in which the old
  one occupies a seat. With the new identifier equal to the old one the call returns
  at its first guard, and the seat, its hand and its score are still keyed by the old
  identifier. And once two seats carry the same identifier (here after seat \<open>p2\<close> has
  been given the identifier of \<open>p1\<close>), only the first slot is rewritten: the seat list
  still names the old identifier, whose hand has been moved away.
\<close>

theorem C5_same_or_shared_id_counterexample:
  "''p1'' \<in> set (playerIds (replacePlayerId sampleGame ''p1'' ''p1''))
   \<and> hands (replacePlayerId sampleGame ''p1'' ''p1'') ''p1'' \<noteq> None
   \<and> playerIds (replacePlayerId (replacePlayerId sampleGame ''p2'' ''p1'') ''p1'' ''p7'')
       = [''p7'', ''p1'', ''bot'']
   \<and> hands (replacePlayerId (replacePlayerId sampleGame ''p2'' ''p1'') ''p1'' ''p7'') ''p1'' = None"
  by (simp add: replacePlayerId_def sampleGame_def rekey_def Let_def)

text \<open>
  Claim C5, amended: for every session state whose seat identifiers are pairwise
  distinct, every \<open>oldId\<close> occupying a seat and every \<open>newId\<close> different from it,
  \<open>replacePlayerId\<close> puts \<open>newId\<close> in the slot of \<open>oldId\<close> and leaves the order of the
  seat list unchanged; moves the hand, bid, tricks-won counter, cumulative score and
  streak of \<open>oldId\<close> to the key \<open>newId\<close> with their values unchanged and leaves every
  entry under a third key as it was; renames \<open>oldId\<close> in the entries of the current
  trick, keeping their cards; leaves the dealer, bidding and play indices and every
  other field unchanged; and leaves neither the seat list, nor any keyed structure,
  nor the current trick naming \<open>oldId\<close>.
\<close>

theorem C5_replacePlayerId_rekeys:
  assumes "distinct (playerIds g)" and "oldId \<in> set (playerIds g)" and "oldId \<noteq> newId"
  shows "playerIds (replacePlayerId g oldId newId) = map (renamed oldId newId) (playerIds g)
    \<and> (\<forall>v. hands g oldId = Some v \<longrightarrow> hands (replacePlayerId g oldId newId) newId = Some v)
    \<and> (\<forall>v. bids g oldId = Some v \<longrightarrow> bids (replacePlayerId g oldId newId) newId = Some v)
    \<and> (\<forall>v. tricksWon g oldId = Some v \<longrightarrow> tricksWon (replacePlayerId g oldId newId) newId = Some v)
    \<and> (\<forall>v. totalScores g oldId = Some v \<longrightarrow> totalScores (replacePlayerId g oldId newId) newId = Some v)
    \<and> (\<forall>v. streaks g oldId = Some v \<longrightarrow> streaks (replacePlayerId g oldId newId) newId = Some v)
    \<and> (\<forall>k. k \<noteq> oldId \<and> k \<noteq> newId \<longrightarrow>
          hands (replacePlayerId g oldId newId) k = hands g k
          \<and> bids (replacePlayerId g oldId newId) k = bids g k
          \<and> tricksWon (replacePlayerId g oldId newId) k = tricksWon g k
          \<and> totalScores (replacePlayerId g oldId newId) k = totalScores g k
          \<and> streaks (replacePlayerId g oldId newId) k = streaks g k)
    \<and> map pid (currentTrick (replacePlayerId g oldId newId))
         = map (renamed oldId newId) (map pid (currentTrick g))
    \<and> map cardT (currentTrick (replacePlayerId g oldId newId)) = map cardT (currentTrick g)
    \<and> oldId \<notin> set (playerIds (replacePlayerId g oldId newId))
    \<and> hands (replacePlayerId g oldId newId) oldId = None
    \<and> bids (replacePlayerId g oldId newId) oldId = None
    \<and> tricksWon (replacePlayerId g oldId newId) oldId = None
    \<and> totalScores (replacePlayerId g oldId newId) oldId = None
    \<and> streaks (replacePlayerId g oldId newId) oldId = None
    \<and> oldId \<notin> set (map pid (currentTrick (replacePlayerId g oldId newId)))
    \<and> dealerIndex (replacePlayerId g oldId newId) = dealerIndex g
    \<and> bidTurnIndex (replacePlayerId g oldId newId) = bidTurnIndex g
    \<and> playTurnIndex (replacePlayerId g oldId newId) = playTurnIndex g
    \<and> pendingPlayTurnIndex (replacePlayerId g oldId newId) = pendingPlayTurnIndex g
    \<and> schedule (replacePlayerId g oldId newId) = schedule g
    \<and> handIndex (replacePlayerId g oldId newId) = handIndex g
    \<and> phase (replacePlayerId g oldId newId) = phase g
    \<and> trumpSuit (replacePlayerId g oldId newId) = trumpSuit g
    \<and> leadSuit (replacePlayerId g oldId newId) = leadSuit g"
proof -
  note eq = replacePlayerId_fields [OF assms(3) assms(2)]
  have ids: "playerIds (replacePlayerId g oldId newId) = map (renamed oldId newId) (playerIds g)"
    using update_first_distinct [OF assms(1) assms(2)] by (simp add: eq)
  have gone: "oldId \<notin> set (map (renamed oldId newId) xs)" for xs
    using assms(3) by (induction xs) (auto simp: renamed_def)
  have trick_pid: "map pid (map (\<lambda>t. if pid t = oldId then t\<lparr>pid := newId\<rparr> else t) ts)
                   = map (renamed oldId newId) (map pid ts)" for ts :: "TrickEntry list"
    by (induction ts) (auto simp: renamed_def)
  have trick_card: "map cardT (map (\<lambda>t. if pid t = oldId then t\<lparr>pid := newId\<rparr> else t) ts)
                    = map cardT ts" for ts :: "TrickEntry list"
    by (induction ts) auto
  have tp: "map pid (currentTrick (replacePlayerId g oldId newId))
              = map (renamed oldId newId) (map pid (currentTrick g))"
    using trick_pid by (simp add: eq)
  have tc: "map cardT (currentTrick (replacePlayerId g oldId newId)) = map cardT (currentTrick g)"
    using trick_card by (simp add: eq)
  have no_seat: "oldId \<notin> set (playerIds (replacePlayerId g oldId newId))"
    unfolding ids by (rule gone)
  have no_trick: "oldId \<notin> set (map pid (currentTrick (replacePlayerId g oldId newId)))"
    unfolding tp by (rule gone)
  have maps: "hands (replacePlayerId g oldId newId) = rekey (hands g) oldId newId"
    "bids (replacePlayerId g oldId newId) = rekey (bids g) oldId newId"
    "tricksWon (replacePlayerId g oldId newId) = rekey (tricksWon g) oldId newId"
    "totalScores (replacePlayerId g oldId newId) = rekey (totalScores g) oldId newId"
    "streaks (replacePlayerId g oldId newId) = rekey (streaks g) oldId newId"
    by (simp_all add: eq)
  have rest: "dealerIndex (replacePlayerId g oldId newId) = dealerIndex g"
    "bidTurnIndex (replacePlayerId g oldId newId) = bidTurnIndex g"
    "playTurnIndex (replacePlayerId g oldId newId) = playTurnIndex g"
    "pendingPlayTurnIndex (replacePlayerId g oldId newId) = pendingPlayTurnIndex g"
    "schedule (replacePlayerId g oldId newId) = schedule g"
    "handIndex (replacePlayerId g oldId newId) = handIndex g"
    "phase (replacePlayerId g oldId newId) = phase g"
    "trumpSuit (replacePlayerId g oldId newId) = trumpSuit g"
    "leadSuit (replacePlayerId g oldId newId) = leadSuit g"
    by (simp_all add: eq)
  show ?thesis
    unfolding maps
    using ids tp tc no_seat no_trick rest assms(3)
    by (simp add: rekey_old rekey_new rekey_other)
qed

theorem C5_replacePlayerId_rekeys_witness:
  "distinct (playerIds sampleGame) \<and> ''p2'' \<in> set (playerIds sampleGame) \<and> ''p2'' \<noteq> ''p7''
   \<and> playerIds (replacePlayerId sampleGame ''p2'' ''p7'') = [''p1'', ''p7'', ''bot'']
   \<and> hands (replacePlayerId sampleGame ''p2'' ''p7'') ''p7'' = Some [\<lparr>suit = D, rank = 11\<rparr>]
   \<and> totalScores (replacePlayerId sampleGame ''p2'' ''p7'') ''p7'' = Some (Num 16)
   \<and> map pid (currentTrick (replacePlayerId sampleGame ''p2'' ''p7'')) = [''p7'']
   \<and> hands (replacePlayerId sampleGame ''p2'' ''p7'') ''p2'' = None"
  using C5_replacePlayerId_rekeys [of sampleGame "''p2''" "''p7''"]
  by (simp add: sampleGame_def renamed_def)


section \<open>Properties of scoring\<close>

lemma scoreSeat_eq:
  "scoreSeat p g =
     g\<lparr>totalScores := (totalScores g)(p \<mapsto> fst (seatResult (bids g p) (tricksWon g p) (totalScores g p) (streaks g p))),
       streaks := (streaks g)(p \<mapsto> snd (seatResult (bids g p) (tricksWon g p) (totalScores g p) (streaks g p)))\<rparr>"
  by (simp add: scoreSeat_def seatResult_def streakOf_def Let_def split: prod.splits)

lemma scoreSeat_frame [simp]:
  "bids (scoreSeat q g) = bids g" "tricksWon (scoreSeat q g) = tricksWon g"
  "playerIds (scoreSeat q g) = playerIds g"
  by (simp_all add: scoreSeat_eq)

lemma scoreSeat_other:
  "q \<noteq> p \<Longrightarrow> totalScores (scoreSeat q g) p = totalScores g p \<and> streaks (scoreSeat q g) p = streaks g p"
  by (simp add: scoreSeat_eq)

lemma scoreSeat_self:
  "totalScores (scoreSeat p g) p = Some (fst (seatResult (bids g p) (tricksWon g p) (totalScores g p) (streaks g p)))
   \<and> streaks (scoreSeat p g) p = Some (snd (seatResult (bids g p) (tricksWon g p) (totalScores g p) (streaks g p)))"
  by (simp add: scoreSeat_eq)

lemma fold_scoreSeat_frame:
  "bids (fold scoreSeat ps g) = bids g \<and> tricksWon (fold scoreSeat ps g) = tricksWon g
   \<and> playerIds (fold scoreSeat ps g) = playerIds g"
  by (induction ps arbitrary: g) simp_all

lemma fold_scoreSeat_absent:
  "p \<notin> set ps \<Longrightarrow> totalScores (fold scoreSeat ps g) p = totalScores g p
                    \<and> streaks (fold scoreSeat ps g) p = streaks g p"
  by (induction ps arbitrary: g) (auto simp: scoreSeat_other)

lemma fold_scoreSeat_seat:
  assumes "distinct ps" and "p \<in> set ps"
  shows "totalScores (fold scoreSeat ps g) p
           = Some (fst (seatResult (bids g p) (tricksWon g p) (totalScores g p) (streaks g p)))
         \<and> streaks (fold scoreSeat ps g) p
           = Some (snd (seatResult (bids g p) (tricksWon g p) (totalScores g p) (streaks g p)))"
  using assms
proof (induction ps arbitrary: g)
  case Nil
  then show ?case by simp
next
  case (Cons q qs)
  show ?case
  proof (cases "q = p")
    case True
    then have "p \<notin> set qs" using Cons.prems(1) by simp
    from fold_scoreSeat_absent [OF this, of "scoreSeat p g"] True scoreSeat_self [of p g]
    show ?thesis by simp
  next
    case False
    then have mem: "p \<in> set qs" using Cons.prems(2) by simp
    have d: "distinct qs" using Cons.prems(1) by simp
    from Cons.IH [OF d mem, of "scoreSeat q g"] scoreSeat_other [OF False, of g]
    show ?thesis by simp
  qed
qed

lemma scoreHand_seat:
  assumes "distinct (playerIds g)" and "p \<in> set (playerIds g)"
  shows "totalScores (scoreHand g) p
           = Some (fst (seatResult (bids g p) (tricksWon g p) (totalScores g p) (streaks g p)))"
    and "streaks (scoreHand g) p
           = Some (snd (seatResult (bids g p) (tricksWon g p) (totalScores g p) (streaks g p)))"
  using fold_scoreSeat_seat [OF assms] by (simp_all add: scoreHand_def)

lemma scoreHand_frame:
  "bids (scoreHand g) = bids g" "tricksWon (scoreHand g) = tricksWon g"
  "playerIds (scoreHand g) = playerIds g"
  using fold_scoreSeat_frame [of "playerIds g" g] by (simp_all add: scoreHand_def)

lemma seatResult_score:
  "fst (seatResult (Some bid) (Some (Num w)) (Some (Num s)) st)
     = Num (s + handDelta bid w + streakBonus (bid = Some w) (streakOf st))"
  by (cases bid)
     (auto simp: seatResult_def handScore_def strictEq_def numOf_def bidOrZero_def handDelta_def
        streakBonus_def runReachesFive_def streakStep_def Let_def)

text \<open>
  Claim C7, as stated, makes the cumulative score of a seat move by exactly
  \<open>5 + tricksWon\<close> or \<open>- |bid - tricksWon|\<close> when a hand completes, and by \<open>+8\<close> for a
  bid of three met in a three-card hand. The same pass of \<open>scoreHand\<close> also pays the
  streak adjustment: the seat below has bid three and won three while on a run of
  four successes, and its score goes from 22 to 40, not to 30.
\<close>

theorem C7_fifth_success_counterexample:
  "bids scoringGame ''p2'' = Some (Some 3)
   \<and> tricksWon scoringGame ''p2'' = Some (Num 3)
   \<and> totalScores scoringGame ''p2'' = Some (Num 22)
   \<and> totalScores (scoreHand scoringGame) ''p2'' = Some (Num 40)"
  by (simp add: scoringGame_def scoreHand_def scoreSeat_def handScore_def strictEq_def numOf_def
        streakStep_def Let_def)

text \<open>
  Claim C7, amended: when a hand completes, for each seat (of pairwise distinct
  identifiers) with a recorded bid, \<open>w\<close> tricks won and score \<open>s\<close>, the cumulative score
  becomes \<open>s\<close> plus \<open>5 + w\<close> if the bid equals \<open>w\<close>, and \<open>s\<close> minus \<open>|bid - w|\<close> otherwise
  (a bid still \<^verbatim>\<open>null\<close> counting as 0 and as unmet), plus the flat streak adjustment of
  \<open>+10\<close> or \<open>-10\<close> on a hand that brings the seat's run to five, and nothing more
  on any other hand; in particular a seat that bids 3 and wins exactly 3 tricks
  gains \<open>+8\<close> for that hand, to which \<open>+10\<close> is added only when the hand is its fifth
  success in a row.
\<close>

theorem C7_scoreHand_delta:
  assumes "distinct (playerIds g)" and "p \<in> set (playerIds g)"
    and "bids g p = Some bid" and "tricksWon g p = Some (Num w)"
    and "totalScores g p = Some (Num s)"
  shows "totalScores (scoreHand g) p
           = Some (Num (s + handDelta bid w + streakBonus (bid = Some w) (streakOf (streaks g p))))
    \<and> (bid = Some w \<longrightarrow> handDelta bid w = 5 + w)
    \<and> (\<forall>b. bid = Some b \<and> b \<noteq> w \<longrightarrow> handDelta bid w = - \<bar>b - w\<bar>)
    \<and> (bid = None \<longrightarrow> handDelta bid w = - \<bar>w\<bar>)
    \<and> (\<not> runReachesFive (bid = Some w) (streakOf (streaks g p)) \<longrightarrow>
          totalScores (scoreHand g) p = Some (Num (s + handDelta bid w)))
    \<and> (bid = Some 3 \<and> w = 3 \<and> \<not> runReachesFive True (streakOf (streaks g p)) \<longrightarrow>
          totalScores (scoreHand g) p = Some (Num (s + 8)))"
proof -
  have main: "totalScores (scoreHand g) p
                = Some (Num (s + handDelta bid w + streakBonus (bid = Some w) (streakOf (streaks g p))))"
    using scoreHand_seat(1) [OF assms(1) assms(2)] assms(3-5) by (simp add: seatResult_score)
  show ?thesis
    using main by (auto simp: handDelta_def streakBonus_def)
qed

theorem C7_scoreHand_delta_witness:
  "distinct (playerIds scoringGame) \<and> ''bot'' \<in> set (playerIds scoringGame)
   \<and> bids scoringGame ''bot'' = Some (Some 0) \<and> tricksWon scoringGame ''bot'' = Some (Num 0)
   \<and> totalScores scoringGame ''bot'' = Some (Num 8)
   \<and> \<not> runReachesFive True (streakOf (streaks scoringGame ''bot''))
   \<and> totalScores (scoreHand scoringGame) ''bot'' = Some (Num 13)
   \<and> ''p1'' \<in> set (playerIds scoringGame)
   \<and> bids scoringGame ''p1'' = Some (Some 1) \<and> tricksWon scoringGame ''p1'' = Some (Num 0)
   \<and> totalScores scoringGame ''p1'' = Some (Num 8)
   \<and> totalScores (scoreHand scoringGame) ''p1'' = Some (Num 7)"
  using C7_scoreHand_delta [of scoringGame "''bot''" "Some 0" 0 8]
        C7_scoreHand_delta [of scoringGame "''p1''" "Some 1" 0 8]
  by (simp add: scoringGame_def handDelta_def runReachesFive_def streakOf_def streakBonus_def)


subsection \<open>The streak\<close>

lemma seatResult_streak:
  "seatResult bid won sc st =
     (let st0 = streakOf st;
          success = strictEq bid won;
          outcome = (if success then Plus else Minus);
          st1 = (if stype st0 = Some outcome then \<lparr>stype = Some outcome, count = count st0 + 1\<rparr>
                 else \<lparr>stype = Some outcome, count = 1\<rparr>)
      in (jsadd (handScore bid won (numOf sc))
                (if count st1 \<ge> 5 then (if success then 10 else - 10) else 0),
          if count st1 \<ge> 5 then \<lparr>stype = None, count = 0\<rparr> else st1))"
proof -
  have z: "jsadd x 0 = x" for x by (cases x) simp_all
  show ?thesis
    by (auto simp: seatResult_def streakStep_def Let_def z)
qed

lemma success_hand:
  assumes "distinct (playerIds g)" and "p \<in> set (playerIds g)"
    and "bids g p = Some (Some w)" and "tricksWon g p = Some (Num w)"
    and "totalScores g p = Some (Num s)"
  shows "stype (streakOf (streaks g p)) \<noteq> Some Plus \<Longrightarrow>
           streaks (scoreHand g) p = Some \<lparr>stype = Some Plus, count = 1\<rparr>
           \<and> totalScores (scoreHand g) p = Some (Num (s + (5 + w)))"
    and "streaks g p = Some \<lparr>stype = Some Plus, count = k\<rparr> \<Longrightarrow> k < 4 \<Longrightarrow>
           streaks (scoreHand g) p = Some \<lparr>stype = Some Plus, count = k + 1\<rparr>
           \<and> totalScores (scoreHand g) p = Some (Num (s + (5 + w)))"
    and "streaks g p = Some \<lparr>stype = Some Plus, count = 4\<rparr> \<Longrightarrow>
           streaks (scoreHand g) p = Some \<lparr>stype = None, count = 0\<rparr>
           \<and> totalScores (scoreHand g) p = Some (Num (s + (5 + w) + 10))"
  using scoreHand_seat [OF assms(1) assms(2)] assms(3-5)
  by (simp_all add: seatResult_streak Let_def strictEq_def handScore_def numOf_def streakOf_def)

lemma five_successes:
  fixes gs :: "nat \<Rightarrow> WhistGame"
  assumes seat: "\<forall>i<5. distinct (playerIds (gs i)) \<and> p \<in> set (playerIds (gs i))
                    \<and> bids (gs i) p = Some (Some (w i)) \<and> tricksWon (gs i) p = Some (Num (w i))"
    and carry: "\<forall>i<4. streaks (gs (i + 1)) p = streaks (scoreHand (gs i)) p
                    \<and> totalScores (gs (i + 1)) p = totalScores (scoreHand (gs i)) p"
    and start: "stype (streakOf (streaks (gs 0) p)) \<noteq> Some Plus" "totalScores (gs 0) p = Some (Num s)"
  shows "streaks (scoreHand (gs 0)) p = Some \<lparr>stype = Some Plus, count = 1\<rparr>"
    and "streaks (scoreHand (gs 1)) p = Some \<lparr>stype = Some Plus, count = 2\<rparr>"
    and "streaks (scoreHand (gs 2)) p = Some \<lparr>stype = Some Plus, count = 3\<rparr>"
    and "streaks (scoreHand (gs 3)) p = Some \<lparr>stype = Some Plus, count = 4\<rparr>"
    and "totalScores (scoreHand (gs 3)) p = Some (Num (s + (5 + w 0) + (5 + w 1) + (5 + w 2) + (5 + w 3)))"
    and "streaks (scoreHand (gs 4)) p = Some \<lparr>stype = None, count = 0\<rparr>"
    and "totalScores (scoreHand (gs 4)) p
           = Some (Num (s + (5 + w 0) + (5 + w 1) + (5 + w 2) + (5 + w 3) + (5 + w 4) + 10))"
proof -
  have s0: "distinct (playerIds (gs 0))" "p \<in> set (playerIds (gs 0))"
    "bids (gs 0) p = Some (Some (w 0))" "tricksWon (gs 0) p = Some (Num (w 0))"
    using seat by simp_all
  have s1: "distinct (playerIds (gs 1))" "p \<in> set (playerIds (gs 1))"
    "bids (gs 1) p = Some (Some (w 1))" "tricksWon (gs 1) p = Some (Num (w 1))"
    using seat by simp_all
  have s2: "distinct (playerIds (gs 2))" "p \<in> set (playerIds (gs 2))"
    "bids (gs 2) p = Some (Some (w 2))" "tricksWon (gs 2) p = Some (Num (w 2))"
    using seat by simp_all
  have s3: "distinct (playerIds (gs 3))" "p \<in> set (playerIds (gs 3))"
    "bids (gs 3) p = Some (Some (w 3))" "tricksWon (gs 3) p = Some (Num (w 3))"
    using seat by simp_all
  have s4: "distinct (playerIds (gs 4))" "p \<in> set (playerIds (gs 4))"
    "bids (gs 4) p = Some (Some (w 4))" "tricksWon (gs 4) p = Some (Num (w 4))"
    using seat by simp_all
  have c0: "streaks (gs 1) p = streaks (scoreHand (gs 0)) p"
    "totalScores (gs 1) p = totalScores (scoreHand (gs 0)) p"
    using carry [rule_format, of 0] by (simp_all add: eval_nat_numeral)
  have c1: "streaks (gs 2) p = streaks (scoreHand (gs 1)) p"
    "totalScores (gs 2) p = totalScores (scoreHand (gs 1)) p"
    using carry [rule_format, of 1] by (simp_all add: eval_nat_numeral)
  have c2: "streaks (gs 3) p = streaks (scoreHand (gs 2)) p"
    "totalScores (gs 3) p = totalScores (scoreHand (gs 2)) p"
    using carry [rule_format, of 2] by (simp_all add: eval_nat_numeral)
  have c3: "streaks (gs 4) p = streaks (scoreHand (gs 3)) p"
    "totalScores (gs 4) p = totalScores (scoreHand (gs 3)) p"
    using carry [rule_format, of 3] by (simp_all add: eval_nat_numeral)
  have r0: "streaks (scoreHand (gs 0)) p = Some \<lparr>stype = Some Plus, count = 1\<rparr>
            \<and> totalScores (scoreHand (gs 0)) p = Some (Num (s + (5 + w 0)))"
    using success_hand(1) [OF s0 start(2) start(1)] .
  have r1: "streaks (scoreHand (gs 1)) p = Some \<lparr>stype = Some Plus, count = 2\<rparr>
            \<and> totalScores (scoreHand (gs 1)) p = Some (Num (s + (5 + w 0) + (5 + w 1)))"
    using success_hand(2) [OF s1, of "s + (5 + w 0)" 1] r0 c0 by simp
  have r2: "streaks (scoreHand (gs 2)) p = Some \<lparr>stype = Some Plus, count = 3\<rparr>
            \<and> totalScores (scoreHand (gs 2)) p = Some (Num (s + (5 + w 0) + (5 + w 1) + (5 + w 2)))"
    using success_hand(2) [OF s2, of "s + (5 + w 0) + (5 + w 1)" 2] r1 c1 by simp
  have r3: "streaks (scoreHand (gs 3)) p = Some \<lparr>stype = Some Plus, count = 4\<rparr>
            \<and> totalScores (scoreHand (gs 3)) p
                = Some (Num (s + (5 + w 0) + (5 + w 1) + (5 + w 2) + (5 + w 3)))"
    using success_hand(2) [OF s3, of "s + (5 + w 0) + (5 + w 1) + (5 + w 2)" 3] r2 c2 by simp
  have r4: "streaks (scoreHand (gs 4)) p = Some \<lparr>stype = None, count = 0\<rparr>
            \<and> totalScores (scoreHand (gs 4)) p
                = Some (Num (s + (5 + w 0) + (5 + w 1) + (5 + w 2) + (5 + w 3) + (5 + w 4) + 10))"
    using success_hand(3) [OF s4, of "s + (5 + w 0) + (5 + w 1) + (5 + w 2) + (5 + w 3)"] r3 c3 by simp
  show "streaks (scoreHand (gs 0)) p = Some \<lparr>stype = Some Plus, count = 1\<rparr>" using r0 by simp
  show "streaks (scoreHand (gs 1)) p = Some \<lparr>stype = Some Plus, count = 2\<rparr>" using r1 by simp
  show "streaks (scoreHand (gs 2)) p = Some \<lparr>stype = Some Plus, count = 3\<rparr>" using r2 by simp
  show "streaks (scoreHand (gs 3)) p = Some \<lparr>stype = Some Plus, count = 4\<rparr>" using r3 by simp
  show "totalScores (scoreHand (gs 3)) p = Some (Num (s + (5 + w 0) + (5 + w 1) + (5 + w 2) + (5 + w 3)))"
    using r3 by simp
  show "streaks (scoreHand (gs 4)) p = Some \<lparr>stype = None, count = 0\<rparr>" using r4 by simp
  show "totalScores (scoreHand (gs 4)) p
          = Some (Num (s + (5 + w 0) + (5 + w 1) + (5 + w 2) + (5 + w 3) + (5 + w 4) + 10))"
    using r4 by simp
qed


lemma funpow_scoreHand_frame:
  "playerIds ((scoreHand ^^ i) g) = playerIds g \<and> bids ((scoreHand ^^ i) g) = bids g
   \<and> tricksWon ((scoreHand ^^ i) g) = tricksWon g"
  by (induction i) (simp_all add: scoreHand_frame)

text \<open>
  Claim C8, as stated, holds for each seat of every state. The loop of \<^verbatim>\<open>_scoreHand\<close>
  runs once per slot of the seat list and writes under the identifier of the slot, so
  an identifier that holds two slots is scored twice in one hand. Below, \<open>p2\<close> holds
  the first two slots; it has met its bid, and the one hand takes its streak from
  \<open>{none, 0}\<close> to a count of 2, not 1, and its score from 40 to 56.
\<close>

theorem C8_seat_named_twice_counterexample:
  "playerIds (restartedGame\<lparr>playerIds := [''p2'', ''p2'', ''bot'']\<rparr>) = [''p2'', ''p2'', ''bot'']
   \<and> bids (restartedGame\<lparr>playerIds := [''p2'', ''p2'', ''bot'']\<rparr>) ''p2'' = Some (Some 3)
   \<and> tricksWon (restartedGame\<lparr>playerIds := [''p2'', ''p2'', ''bot'']\<rparr>) ''p2'' = Some (Num 3)
   \<and> streaks (restartedGame\<lparr>playerIds := [''p2'', ''p2'', ''bot'']\<rparr>) ''p2''
       = Some \<lparr>stype = None, count = 0\<rparr>
   \<and> totalScores (restartedGame\<lparr>playerIds := [''p2'', ''p2'', ''bot'']\<rparr>) ''p2'' = Some (Num 40)
   \<and> streaks (scoreHand (restartedGame\<lparr>playerIds := [''p2'', ''p2'', ''bot'']\<rparr>)) ''p2''
       = Some \<lparr>stype = Some Plus, count = 2\<rparr>
   \<and> totalScores (scoreHand (restartedGame\<lparr>playerIds := [''p2'', ''p2'', ''bot'']\<rparr>)) ''p2''
       = Some (Num 56)"
  by (simp add: restartedGame_def scoringGame_def scoreHand_def scoreSeat_def handScore_def
        strictEq_def numOf_def streakStep_def Let_def)

text \<open>
  Claim C8, amended: when a hand is scored in a state whose seat identifiers are
  pairwise distinct, for each seat the streak is advanced by the outcome of the hand:
  if the outcome matches the type of the streak the count goes up by one, otherwise
  the type becomes the outcome with count 1; when the count so reached is five,
  exactly one flat adjustment, \<open>+10\<close> for a success and \<open>-10\<close> for a failure, is
  added to the score of the hand and the streak becomes \<open>{none, 0}\<close>, and below five
  nothing is added. Over five consecutive hands \<open>gs 0\<close>, ..., \<open>gs 4\<close> of such states
  in which a seat meets its bid, the score and streak of the seat being carried from
  each hand to the next and the streak not being a success streak at the start, the
  streak counts 1, 2, 3, 4 with no bonus, and the fifth hand pays a single \<open>+10\<close> on
  top of the five hand scores and leaves the streak at \<open>{none, 0}\<close>.
\<close>

theorem C8_streak_update:
  fixes gs :: "nat \<Rightarrow> WhistGame"
  shows
  "(distinct (playerIds g) \<and> p \<in> set (playerIds g) \<longrightarrow>
      (let st0 = streakOf (streaks g p);
           success = strictEq (bids g p) (tricksWon g p);
           outcome = (if success then Plus else Minus);
           st1 = (if stype st0 = Some outcome then \<lparr>stype = Some outcome, count = count st0 + 1\<rparr>
                  else \<lparr>stype = Some outcome, count = 1\<rparr>)
       in streaks (scoreHand g) p = Some (if count st1 \<ge> 5 then \<lparr>stype = None, count = 0\<rparr> else st1)
          \<and> totalScores (scoreHand g) p
              = Some (jsadd (handScore (bids g p) (tricksWon g p) (numOf (totalScores g p)))
                            (if count st1 \<ge> 5 then (if success then 10 else - 10) else 0))))
   \<and> ((\<forall>i<5. distinct (playerIds (gs i)) \<and> q \<in> set (playerIds (gs i))
               \<and> bids (gs i) q = Some (Some (w i)) \<and> tricksWon (gs i) q = Some (Num (w i)))
        \<and> (\<forall>i<4. streaks (gs (i + 1)) q = streaks (scoreHand (gs i)) q
                 \<and> totalScores (gs (i + 1)) q = totalScores (scoreHand (gs i)) q)
        \<and> stype (streakOf (streaks (gs 0) q)) \<noteq> Some Plus
        \<and> totalScores (gs 0) q = Some (Num s)
       \<longrightarrow>
        streaks (scoreHand (gs 0)) q = Some \<lparr>stype = Some Plus, count = 1\<rparr>
        \<and> streaks (scoreHand (gs 1)) q = Some \<lparr>stype = Some Plus, count = 2\<rparr>
        \<and> streaks (scoreHand (gs 2)) q = Some \<lparr>stype = Some Plus, count = 3\<rparr>
        \<and> streaks (scoreHand (gs 3)) q = Some \<lparr>stype = Some Plus, count = 4\<rparr>
        \<and> totalScores (scoreHand (gs 3)) q
            = Some (Num (s + (5 + w 0) + (5 + w 1) + (5 + w 2) + (5 + w 3)))
        \<and> streaks (scoreHand (gs 4)) q = Some \<lparr>stype = None, count = 0\<rparr>
        \<and> totalScores (scoreHand (gs 4)) q
            = Some (Num (s + (5 + w 0) + (5 + w 1) + (5 + w 2) + (5 + w 3) + (5 + w 4) + 10)))"
proof (intro conjI impI)
  assume a: "distinct (playerIds g) \<and> p \<in> set (playerIds g)"
  then have d: "distinct (playerIds g)" and m: "p \<in> set (playerIds g)" by simp_all
  show "let st0 = streakOf (streaks g p);
            success = strictEq (bids g p) (tricksWon g p);
            outcome = (if success then Plus else Minus);
            st1 = (if stype st0 = Some outcome then \<lparr>stype = Some outcome, count = count st0 + 1\<rparr>
                   else \<lparr>stype = Some outcome, count = 1\<rparr>)
        in streaks (scoreHand g) p = Some (if count st1 \<ge> 5 then \<lparr>stype = None, count = 0\<rparr> else st1)
           \<and> totalScores (scoreHand g) p
               = Some (jsadd (handScore (bids g p) (tricksWon g p) (numOf (totalScores g p)))
                             (if count st1 \<ge> 5 then (if success then 10 else - 10) else 0))"
    using scoreHand_seat [OF d m] by (simp add: seatResult_streak Let_def)
next
  assume h: "(\<forall>i<5. distinct (playerIds (gs i)) \<and> q \<in> set (playerIds (gs i))
               \<and> bids (gs i) q = Some (Some (w i)) \<and> tricksWon (gs i) q = Some (Num (w i)))
        \<and> (\<forall>i<4. streaks (gs (i + 1)) q = streaks (scoreHand (gs i)) q
                 \<and> totalScores (gs (i + 1)) q = totalScores (scoreHand (gs i)) q)
        \<and> stype (streakOf (streaks (gs 0) q)) \<noteq> Some Plus
        \<and> totalScores (gs 0) q = Some (Num s)"
  then have seat: "\<forall>i<5. distinct (playerIds (gs i)) \<and> q \<in> set (playerIds (gs i))
               \<and> bids (gs i) q = Some (Some (w i)) \<and> tricksWon (gs i) q = Some (Num (w i))"
    and carry: "\<forall>i<4. streaks (gs (i + 1)) q = streaks (scoreHand (gs i)) q
                 \<and> totalScores (gs (i + 1)) q = totalScores (scoreHand (gs i)) q"
    and start: "stype (streakOf (streaks (gs 0) q)) \<noteq> Some Plus" "totalScores (gs 0) q = Some (Num s)"
    by blast+
  note five = five_successes [OF seat carry start]
  show "streaks (scoreHand (gs 0)) q = Some \<lparr>stype = Some Plus, count = 1\<rparr>" by (rule five(1))
  show "streaks (scoreHand (gs 1)) q = Some \<lparr>stype = Some Plus, count = 2\<rparr>" by (rule five(2))
  show "streaks (scoreHand (gs 2)) q = Some \<lparr>stype = Some Plus, count = 3\<rparr>" by (rule five(3))
  show "streaks (scoreHand (gs 3)) q = Some \<lparr>stype = Some Plus, count = 4\<rparr>" by (rule five(4))
  show "totalScores (scoreHand (gs 3)) q
          = Some (Num (s + (5 + w 0) + (5 + w 1) + (5 + w 2) + (5 + w 3)))" by (rule five(5))
  show "streaks (scoreHand (gs 4)) q = Some \<lparr>stype = None, count = 0\<rparr>" by (rule five(6))
  show "totalScores (scoreHand (gs 4)) q
          = Some (Num (s + (5 + w 0) + (5 + w 1) + (5 + w 2) + (5 + w 3) + (5 + w 4) + 10))"
    by (rule five(7))
qed

theorem C8_streak_update_witness:
  "distinct (playerIds scoringGame) \<and> ''p2'' \<in> set (playerIds scoringGame)
   \<and> streaks (scoreHand scoringGame) ''p2'' = Some \<lparr>stype = None, count = 0\<rparr>
   \<and> totalScores (scoreHand scoringGame) ''p2'' = Some (Num 40)
   \<and> streaks (scoreHand scoringGame) ''p1'' = Some \<lparr>stype = Some Minus, count = 3\<rparr>
   \<and> stype (streakOf (streaks (restartedGame) ''p2'')) \<noteq> Some Plus
   \<and> totalScores restartedGame ''p2'' = Some (Num 40)
   \<and> streaks (scoreHand ((scoreHand ^^ 3) restartedGame)) ''p2'' = Some \<lparr>stype = Some Plus, count = 4\<rparr>
   \<and> totalScores (scoreHand ((scoreHand ^^ 3) restartedGame)) ''p2'' = Some (Num 72)
   \<and> streaks (scoreHand ((scoreHand ^^ 4) restartedGame)) ''p2'' = Some \<lparr>stype = None, count = 0\<rparr>
   \<and> totalScores (scoreHand ((scoreHand ^^ 4) restartedGame)) ''p2'' = Some (Num 90)"
proof -
  let ?gs = "\<lambda>i. (scoreHand ^^ i) restartedGame"
  have ids: "playerIds restartedGame = [''p1'', ''p2'', ''bot'']"
    and b: "bids restartedGame ''p2'' = Some (Some 3)"
    and t: "tricksWon restartedGame ''p2'' = Some (Num 3)"
    and st: "stype (streakOf (streaks restartedGame ''p2'')) \<noteq> Some Plus"
    and sc: "totalScores restartedGame ''p2'' = Some (Num 40)"
    by (simp_all add: restartedGame_def scoringGame_def streakOf_def)
  have seat: "\<forall>i<5. distinct (playerIds (?gs i)) \<and> ''p2'' \<in> set (playerIds (?gs i))
               \<and> bids (?gs i) ''p2'' = Some (Some ((\<lambda>i. 3) i))
               \<and> tricksWon (?gs i) ''p2'' = Some (Num ((\<lambda>i. 3) i))"
    using ids b t by (simp add: funpow_scoreHand_frame)
  have carry: "\<forall>i<4. streaks (?gs (i + 1)) ''p2'' = streaks (scoreHand (?gs i)) ''p2''
                 \<and> totalScores (?gs (i + 1)) ''p2'' = totalScores (scoreHand (?gs i)) ''p2''"
    by simp
  have single: "distinct (playerIds scoringGame) \<and> ''p2'' \<in> set (playerIds scoringGame)"
    "distinct (playerIds scoringGame) \<and> ''p1'' \<in> set (playerIds scoringGame)"
    by (simp_all add: scoringGame_def)
  show ?thesis
    using C8_streak_update [of scoringGame "''p2''" ?gs "''p2''" "\<lambda>i. 3" 40]
          C8_streak_update [of scoringGame "''p1''" ?gs "''p2''" "\<lambda>i. 3" 40]
          seat carry st sc single
    by (simp add: scoringGame_def streakOf_def strictEq_def handScore_def numOf_def bidOrZero_def Let_def)
qed


section \<open>Properties of bidding\<close>

lemma sumBidsLoop_sum:
  "sumBidsLoop bs x ps acc = acc + sum_list (map (\<lambda>q. bidOrZero (bs q)) (filter (\<lambda>q. q \<noteq> x) ps))"
  by (induction ps arbitrary: acc) (auto simp: bidOrZero_def split: option.splits)

lemma filter_by_index:
  "filter P xs = map (\<lambda>i. xs ! i) (filter (\<lambda>i. P (xs ! i)) [0 ..< length xs])"
proof -
  have "filter P (map (\<lambda>i. xs ! i) [0 ..< length xs])
          = map (\<lambda>i. xs ! i) (filter (P \<circ> (\<lambda>i. xs ! i)) [0 ..< length xs])"
    by (rule filter_map)
  then show ?thesis by (simp add: map_nth comp_def)
qed

lemma others_are_nonDealerSeats:
  assumes d: "distinct (playerIds g)" and dealer: "nth_js (playerIds g) (dealerIndex g) = Some p"
  shows "filter (\<lambda>q. q \<noteq> p) (playerIds g) = nonDealerSeats g"
proof -
  obtain k where k: "dealerIndex g = Num k" "0 \<le> k" "k < int (length (playerIds g))"
    "playerIds g ! nat k = p"
    using dealer by (cases "dealerIndex g") (auto split: if_splits)
  have same: "(playerIds g ! i \<noteq> p) = (Num (int i) \<noteq> dealerIndex g)"
    if "i \<in> set [0 ..< length (playerIds g)]" for i
  proof -
    have i: "i < length (playerIds g)" using that by simp
    have nk: "nat k < length (playerIds g)" using k(2,3) by simp
    have "(playerIds g ! i = playerIds g ! nat k) = (i = nat k)"
      using nth_eq_iff_index_eq [OF d i nk] .
    moreover have "(i = nat k) = (int i = k)" using k(2) by auto
    ultimately show ?thesis using k(1,4) by simp
  qed
  have "filter (\<lambda>i. playerIds g ! i \<noteq> p) [0 ..< length (playerIds g)]
          = filter (\<lambda>i. Num (int i) \<noteq> dealerIndex g) [0 ..< length (playerIds g)]"
    using same by (rule filter_cong [OF refl])
  then show ?thesis
    using filter_by_index [of "\<lambda>q. q \<noteq> p" "playerIds g"] by (simp add: nonDealerSeats_def)
qed

lemma sumBidsSoFar_recorded:
  assumes "distinct (playerIds g)" and "nth_js (playerIds g) (dealerIndex g) = Some p"
  shows "sumBidsSoFar g p = recordedBidSum g"
  using others_are_nonDealerSeats [OF assms]
  by (simp add: sumBidsSoFar_def sumBidsLoop_sum recordedBidSum_def)

text \<open>
  Claim C2, as stated, holds of every state in the bidding phase. \<^verbatim>\<open>_sumBidsSoFar\<close>
  leaves out every slot that carries the dealer's identifier, not only the dealer's
  slot, and nothing keeps an identifier from holding two slots. Below, the connection
  of the dealer \<open>p1\<close> has taken over the seat of \<open>p2\<close>, whose bid of 1 is now
  recorded under \<open>p1\<close>: the non-dealer seats have recorded 1 and 0, the hand size is
  2, and yet the dealer's bid of 1 is accepted and the bid of 2 is rejected.
\<close>

theorem C2_shared_identifier_counterexample:
  "playerIds (replacePlayerId biddingGame ''p2'' ''p1'') = [''p1'', ''p1'', ''bot'']
   \<and> phase (replacePlayerId biddingGame ''p2'' ''p1'') = bidding
   \<and> getCurrentBidder (replacePlayerId biddingGame ''p2'' ''p1'') = Some ''p1''
   \<and> nth_js (playerIds (replacePlayerId biddingGame ''p2'' ''p1''))
         (dealerIndex (replacePlayerId biddingGame ''p2'' ''p1'')) = Some ''p1''
   \<and> currentHandSize (replacePlayerId biddingGame ''p2'' ''p1'') = 2
   \<and> recordedBidSum (replacePlayerId biddingGame ''p2'' ''p1'') = 1
   \<and> placeBid (replacePlayerId biddingGame ''p2'' ''p1'') ''p1'' (Num 2)
         = Threw IllegalBid (replacePlayerId biddingGame ''p2'' ''p1'')
   \<and> (case placeBid (replacePlayerId biddingGame ''p2'' ''p1'') ''p1'' (Num 1) of
         Returned u g' \<Rightarrow> bids g' ''p1'' = Some (Some 1) \<and> phase g' = playing
       | Threw e g' \<Rightarrow> False)"
proof -
  have g: "replacePlayerId biddingGame ''p2'' ''p1'' =
      biddingGame\<lparr>playerIds := [''p1'', ''p1'', ''bot''],
                  hands := rekey (hands biddingGame) ''p2'' ''p1'',
                  bids := rekey (bids biddingGame) ''p2'' ''p1'',
                  tricksWon := rekey (tricksWon biddingGame) ''p2'' ''p1'',
                  totalScores := rekey (totalScores biddingGame) ''p2'' ''p1'',
                  streaks := rekey (streaks biddingGame) ''p2'' ''p1''\<rparr>"
    by (simp add: replacePlayerId_def biddingGame_def sampleGame_def Let_def)
  have b: "bids (replacePlayerId biddingGame ''p2'' ''p1'') ''p1'' = Some (Some 1)"
    "bids (replacePlayerId biddingGame ''p2'' ''p1'') ''bot'' = Some (Some 0)"
    unfolding g by (simp_all add: rekey_def biddingGame_def sampleGame_def)
  have f: "phase (replacePlayerId biddingGame ''p2'' ''p1'') = bidding"
    "bidTurnIndex (replacePlayerId biddingGame ''p2'' ''p1'') = Num 0"
    "dealerIndex (replacePlayerId biddingGame ''p2'' ''p1'') = Num 0"
    "playerIds (replacePlayerId biddingGame ''p2'' ''p1'') = [''p1'', ''p1'', ''bot'']"
    "currentHandSize (replacePlayerId biddingGame ''p2'' ''p1'') = 2"
    unfolding g by (simp_all add: biddingGame_def sampleGame_def currentHandSize_def)
  have sum: "recordedBidSum (replacePlayerId biddingGame ''p2'' ''p1'') = 1"
    by (simp add: recordedBidSum_def nonDealerSeats_def f b bidOrZero_def upt_conv_Cons)
  have code: "sumBidsSoFar (replacePlayerId biddingGame ''p2'' ''p1'') ''p1'' = 0"
    by (simp add: sumBidsSoFar_def f b)
  show ?thesis
    by (simp add: placeBid_def getCurrentBidder_def f sum code b Let_def isNumberBid_def
          numPlayers_def jsmod_def)
qed

text \<open>
  Claim C2, amended: in the bidding phase of a state whose seat identifiers are
  pairwise distinct, when it is the turn of the seat in the dealer's slot and the bid
  submitted is an integer from 0 to the hand size, \<open>placeBid\<close> rejects the bid if and
  only if it equals the hand size minus the sum of the bids already recorded by the
  non-dealer seats; a rejection is the illegal-bid error and leaves the state, and so
  the recorded bids, as they were, and an accepted bid is recorded under the dealer's
  identifier.
\<close>

theorem C2_dealer_hook:
  assumes "phase g = bidding"
    and "getCurrentBidder g = Some p"
    and "nth_js (playerIds g) (dealerIndex g) = Some p"
    and "distinct (playerIds g)"
    and "0 \<le> b" and "b \<le> int (currentHandSize g)"
  shows "((\<exists>e g'. placeBid g p (Num b) = Threw e g')
            \<longleftrightarrow> b = int (currentHandSize g) - recordedBidSum g)
    \<and> (b = int (currentHandSize g) - recordedBidSum g \<longrightarrow> placeBid g p (Num b) = Threw IllegalBid g)
    \<and> (b \<noteq> int (currentHandSize g) - recordedBidSum g \<longrightarrow>
          (\<exists>g'. placeBid g p (Num b) = Returned () g' \<and> bids g' p = Some (Some b)))"
proof -
  have s: "sumBidsSoFar g p = recordedBidSum g"
    using sumBidsSoFar_recorded [OF assms(4) assms(3)] .
  show ?thesis
    using assms(1,2,3,5,6) s by (simp add: placeBid_def Let_def)
qed

theorem C2_dealer_hook_witness:
  "phase biddingGame = bidding \<and> getCurrentBidder biddingGame = Some ''p1''
   \<and> nth_js (playerIds biddingGame) (dealerIndex biddingGame) = Some ''p1''
   \<and> distinct (playerIds biddingGame) \<and> currentHandSize biddingGame = 2
   \<and> recordedBidSum biddingGame = 1
   \<and> placeBid biddingGame ''p1'' (Num 1) = Threw IllegalBid biddingGame
   \<and> (\<exists>g'. placeBid biddingGame ''p1'' (Num 2) = Returned () g' \<and> bids g' ''p1'' = Some (Some 2))"
proof -
  have facts: "phase biddingGame = bidding" "getCurrentBidder biddingGame = Some ''p1''"
    "nth_js (playerIds biddingGame) (dealerIndex biddingGame) = Some ''p1''"
    "distinct (playerIds biddingGame)" "currentHandSize biddingGame = 2"
    by (simp_all add: biddingGame_def sampleGame_def getCurrentBidder_def currentHandSize_def)
  have sum: "recordedBidSum biddingGame = 1"
    by (simp add: recordedBidSum_def nonDealerSeats_def biddingGame_def sampleGame_def
          bidOrZero_def upt_conv_Cons)
  show ?thesis
    using C2_dealer_hook [of biddingGame "''p1''" 1] C2_dealer_hook [of biddingGame "''p1''" 2]
          facts sum
    by simp
qed


section \<open>Properties of the per-viewer projection\<close>







section \<open>Rejected actions leave the state untouched\<close>

lemma placeBid_atomic: "placeBid g p bid = Threw e g' \<Longrightarrow> g' = g"
  by (cases bid) (auto simp: placeBid_def Let_def split: if_splits)

lemma chooseTrump_atomic: "chooseTrump g p suitStr = Threw e g' \<Longrightarrow> g' = g"
  by (auto simp: chooseTrump_def split: if_splits option.splits)

lemma resumeAfterTrick_atomic: "resumeAfterTrick g = Threw e g' \<Longrightarrow> g' = g"
  by (auto simp: resumeAfterTrick_def split: if_splits)

lemma playCard_atomic:
  assumes "playCard g p cardStr = Threw e g'" and "e \<noteq> TypeError"
  shows "g' = g"
proof (cases "phase g \<noteq> playing \<or> Some p \<noteq> getCurrentPlayer g")
  case True
  then show ?thesis using assms(1) by (auto simp: playCard_def split: if_splits)
next
  case turn: False
  show ?thesis
  proof (cases "stringToCard cardStr")
    case (Inl x)
    then show ?thesis using assms(1) turn by (simp add: playCard_def)
  next
    case (Inr c)
    show ?thesis
    proof (cases "hands g p")
      case None
      then show ?thesis using assms(1) turn Inr by (simp add: playCard_def)
    next
      case (Some hand)
      show ?thesis
      proof (cases "c \<notin> set hand \<or> followCheck g hand c \<noteq> None")
        case True
        then show ?thesis
          using assms(1) turn Inr Some by (auto simp: playCard_def split: if_splits)
      next
        case False
        then have ok: "c \<in> set hand" "followCheck g hand c = None" by simp_all
        have "e = TypeError"
          using assms(1) turn Inr Some ok
          by (simp add: playCard_def Let_def split: if_splits prod.splits option.splits bool.splits)
        with assms(2) show ?thesis by simp
      qed
    qed
  qed
qed

lemma createBaseDeck_error: "createBaseDeck n = Inl e \<Longrightarrow> e = DeckSizeMismatch"
  by (simp add: createBaseDeck_def Let_def split: if_splits)

lemma dealRow_error: "dealRow st ps deck g = Threw e g' \<Longrightarrow> e = TypeError"
  by (induction ps arbitrary: deck g) (auto simp: Let_def split: if_splits option.splits)

lemma dealRows_error: "dealRows i st deck g = Threw e g' \<Longrightarrow> e = TypeError"
proof (induction i arbitrary: deck g)
  case 0
  then show ?case by simp
next
  case (Suc i)
  show ?case
  proof (cases "dealRow st [0 ..< numPlayers g] deck g")
    case (Returned deck' g1)
    then show ?thesis using Suc by simp
  next
    case (Threw e1 g1)
    then have "e1 = TypeError" by (rule dealRow_error)
    then show ?thesis using Suc.prems Threw by simp
  qed
qed

lemma sortHands_error: "sortHands ps g = Threw e g' \<Longrightarrow> e = TypeError"
  by (induction ps arbitrary: g) (auto split: option.splits)

lemma startHand_error:
  assumes "startHand rnd g = Threw e g'"
  shows "e = DeckSizeMismatch \<or> e = TypeError"
proof (cases "createBaseDeck (numPlayers (resetForNextHand g))")
  case (Inl x)
  then show ?thesis
    using assms createBaseDeck_error [OF Inl] by (simp add: startHand_def Let_def)
next
  case (Inr base)
  show ?thesis
    using assms Inr
    by (auto simp: startHand_def Let_def
          split: if_splits outcome.splits dest: dealRows_error sortHands_error)
qed

lemma nextHand_atomic:
  assumes "nextHand rnd g = Threw e g'" and "isRejection e"
  shows "g' = g"
proof (cases "phase g = hand_end")
  case True
  then have "e = DeckSizeMismatch \<or> e = TypeError"
    using assms(1) startHand_error by (simp add: nextHand_def)
  then show ?thesis using assms(2) by (auto simp: isRejection_def)
next
  case False
  then show ?thesis using assms(1) by (simp add: nextHand_def)
qed

text \<open>
  Claim C1: for each of the five actions and every session state, reachable or not,
  if the call is rejected with a phase, turn or input violation (or with the
  illegal-bid or illegal-play error), the state after the call, and so every one of
  its fields, is the state before it. The only throws made after a write are a
  runtime exception in \<open>playCard\<close> and the failures of dealing in \<open>nextHand\<close>, none of
  which is a rejection.
\<close>

theorem C1_rejections_atomic:
  "(placeBid g p bid = Threw e g' \<longrightarrow> g' = g)
   \<and> (chooseTrump g p suitStr = Threw e g' \<longrightarrow> g' = g)
   \<and> (playCard g p cardStr = Threw e g' \<and> isRejection e \<longrightarrow> g' = g)
   \<and> (nextHand rnd g = Threw e g' \<and> isRejection e \<longrightarrow> g' = g)
   \<and> (resumeAfterTrick g = Threw e g' \<longrightarrow> g' = g)"
proof (intro conjI impI)
  show "g' = g" if "placeBid g p bid = Threw e g'"
    using that by (rule placeBid_atomic)
  show "g' = g" if "chooseTrump g p suitStr = Threw e g'"
    using that by (rule chooseTrump_atomic)
  show "g' = g" if "playCard g p cardStr = Threw e g' \<and> isRejection e"
  proof -
    have "e \<noteq> TypeError" using that by (auto simp: isRejection_def)
    with that playCard_atomic show ?thesis by blast
  qed
  show "g' = g" if "nextHand rnd g = Threw e g' \<and> isRejection e"
    using that nextHand_atomic by blast
  show "g' = g" if "resumeAfterTrick g = Threw e g'"
    using that by (rule resumeAfterTrick_atomic)
qed


lemma sampleGame_turn:
  "phase sampleGame = playing" "getCurrentPlayer sampleGame = Some ''bot''"
  "hands sampleGame ''bot'' = Some [\<lparr>suit = C, rank = 9\<rparr>, \<lparr>suit = H, rank = 10\<rparr>]"
  "currentTrick sampleGame = [\<lparr>pid = ''p2'', cardT = \<lparr>suit = S, rank = 14\<rparr>\<rparr>]"
  "leadSuit sampleGame = Some S" "trumpSuit sampleGame = Some H"
  by (simp_all add: sampleGame_def getCurrentPlayer_def)

lemma tokens_parsed:
  "stringToCard (codeUnits ''9C'') = Inr \<lparr>suit = C, rank = 9\<rparr>"
  "stringToCard (codeUnits ''10H'') = Inr \<lparr>suit = H, rank = 10\<rparr>"
  "stringToCard (codeUnits ''KD'') = Inr \<lparr>suit = D, rank = 13\<rparr>"
  "stringToCard (codeUnits ''9X'') = Inl InputViolation"
  by (simp_all add: stringToCard_def suitOfUnits_def codeUnits_def parseInt10_def isSpace_def
        isDigit_def digitVal_def toDouble_def)

lemma tokens_printed:
  "cardToString \<lparr>suit = C, rank = 9\<rparr> = ''9C''"
  "cardToString \<lparr>suit = H, rank = 10\<rparr> = ''10H''"
  by (simp_all add: cardToString_def intToString_def natToString.simps digitChar_def suitChar_def)

lemma sampleGame_offsuit_rejected:
  "playCard sampleGame ''bot'' (codeUnits ''9C'') = Threw IllegalPlay sampleGame"
  by (simp add: playCard_def sampleGame_turn tokens_parsed followCheck_def hasSuit_def)

theorem C1_rejections_atomic_witness:
  "placeBid sampleGame ''bot'' (Num 1) = Threw PhaseViolation sampleGame
   \<and> chooseTrump sampleGame ''bot'' ''H'' = Threw PhaseViolation sampleGame
   \<and> playCard sampleGame ''p1'' (codeUnits ''KD'') = Threw TurnViolation sampleGame
   \<and> playCard sampleGame ''bot'' (codeUnits ''9X'') = Threw InputViolation sampleGame
   \<and> playCard sampleGame ''bot'' (codeUnits ''9C'') = Threw IllegalPlay sampleGame
   \<and> isRejection IllegalPlay
   \<and> nextHand (\<lambda>i. 0) sampleGame = Threw PhaseViolation sampleGame
   \<and> isRejection PhaseViolation
   \<and> resumeAfterTrick sampleGame = Threw PhaseViolation sampleGame"
  using C1_rejections_atomic [of sampleGame "''bot''" "Num 1" PhaseViolation sampleGame "''H''"
          "codeUnits ''9C''" "\<lambda>i. 0"]
        sampleGame_offsuit_rejected
  by (simp add: placeBid_def chooseTrump_def playCard_def nextHand_def resumeAfterTrick_def
        sampleGame_turn tokens_parsed isRejection_def)

section \<open>The automated player's card\<close>

text \<open>
  Claim C6 says that the card submitted by the automated player is legal and is the
  lowest legal card. In \<open>sampleGame\<close> spades are led, hearts are trump and the seat
  \<open>bot\<close>, whose turn it is, holds the nine of clubs and the ten of hearts: it cannot
  follow suit and holds a trump, so only the ten of hearts may be played. The policy
  picks \<^verbatim>\<open>hand[0]\<close>, the nine of clubs; \<open>playCard\<close> rejects it and leaves the state as
  it was, the exception is swallowed and nothing is played for the seat, although the
  ten of hearts would have been accepted and would have led to \<open>fillingGame\<close>.
\<close>

theorem C6_bot_picks_illegal_card:
  "getCurrentPlayer sampleGame = Some ''bot''
   \<and> botChoice sampleGame ''bot'' = Inr (Some \<lparr>suit = C, rank = 9\<rparr>)
   \<and> cardToString \<lparr>suit = C, rank = 9\<rparr> = ''9C''
   \<and> playCard sampleGame ''bot'' (codeUnits ''9C'') = Threw IllegalPlay sampleGame
   \<and> botPlay sampleGame ''bot'' = Some (Threw IllegalPlay sampleGame)
   \<and> playCard sampleGame ''bot'' (codeUnits ''10H'') = Returned (False, None) fillingGame"
proof -
  have choice: "botChoice sampleGame ''bot'' = Inr (Some \<lparr>suit = C, rank = 9\<rparr>)"
    by (simp add: botChoice_def sampleGame_turn)
  have play: "botPlay sampleGame ''bot'' = Some (Threw IllegalPlay sampleGame)"
    by (simp add: botPlay_def choice tokens_printed sampleGame_offsuit_rejected)
  have ids: "playerIds sampleGame = [''p1'', ''p2'', ''bot'']"
    "playTurnIndex sampleGame = Some (Num 2)"
    by (simp_all add: sampleGame_def)
  have legal: "playCard sampleGame ''bot'' (codeUnits ''10H'') = Returned (False, None) fillingGame"
    by (simp add: playCard_def sampleGame_turn tokens_parsed followCheck_def hasSuit_def Let_def
          numPlayers_def ids jsmod_def fillingGame_def)
  show ?thesis
    using choice play legal sampleGame_turn(2) tokens_printed(1) sampleGame_offsuit_rejected
    by simp
qed


section \<open>The shape of reachable states\<close>

text \<open>
  The statements above about seats assume pairwise distinct seat identifiers, and the
  one about the projection a hand for every seat. Both hold in every state that the
  engine reaches from a roster of pairwise distinct identifiers by its actions and by
  re-keyings to identifiers that no seat has: the constructor and
  \<open>resetForNextHand\<close> give each seat its entries, no action removes a key or touches
  the seat list, and such a re-keying keeps the seats distinct and moves the entries
  along. Neither the engine nor the handlers of \<^verbatim>\<open>server.ts\<close> check these two
  conditions: a roster may name a connection twice, and a seat may be re-keyed to
  an identifier that is seated already, as in the states shown for C2, C5 and C8.
\<close>

lemma seated_iff:
  "seated g \<longleftrightarrow> distinct (playerIds g)
     \<and> (\<forall>p \<in> set (playerIds g). hands g p \<noteq> None \<and> bids g p \<noteq> None \<and> tricksWon g p \<noteq> None
                                  \<and> totalScores g p \<noteq> None \<and> streaks g p \<noteq> None)"
  by (simp add: seated_def list_all_iff)

lemma keysKept_refl: "keysKept g g"
  by (simp add: keysKept_def)

lemma keysKept_trans: "keysKept g g1 \<Longrightarrow> keysKept g1 g2 \<Longrightarrow> keysKept g g2"
  by (simp add: keysKept_def)

lemma seated_keysKept: "seated g \<Longrightarrow> keysKept g g' \<Longrightarrow> seated g'"
  by (simp add: seated_iff keysKept_def)

lemma reset_fold:
  "playerIds (fold (\<lambda>p g'. g'\<lparr>bids := (bids g')(p \<mapsto> None),
                               tricksWon := (tricksWon g')(p \<mapsto> Num 0),
                               hands := (hands g')(p \<mapsto> [])\<rparr>) ps g) = playerIds g
   \<and> totalScores (fold (\<lambda>p g'. g'\<lparr>bids := (bids g')(p \<mapsto> None),
                               tricksWon := (tricksWon g')(p \<mapsto> Num 0),
                               hands := (hands g')(p \<mapsto> [])\<rparr>) ps g) = totalScores g
   \<and> streaks (fold (\<lambda>p g'. g'\<lparr>bids := (bids g')(p \<mapsto> None),
                               tricksWon := (tricksWon g')(p \<mapsto> Num 0),
                               hands := (hands g')(p \<mapsto> [])\<rparr>) ps g) = streaks g
   \<and> (\<forall>k. (k \<in> set ps \<or> hands g k \<noteq> None \<longrightarrow>
              hands (fold (\<lambda>p g'. g'\<lparr>bids := (bids g')(p \<mapsto> None),
                               tricksWon := (tricksWon g')(p \<mapsto> Num 0),
                               hands := (hands g')(p \<mapsto> [])\<rparr>) ps g) k \<noteq> None)
          \<and> (k \<in> set ps \<or> bids g k \<noteq> None \<longrightarrow>
              bids (fold (\<lambda>p g'. g'\<lparr>bids := (bids g')(p \<mapsto> None),
                               tricksWon := (tricksWon g')(p \<mapsto> Num 0),
                               hands := (hands g')(p \<mapsto> [])\<rparr>) ps g) k \<noteq> None)
          \<and> (k \<in> set ps \<or> tricksWon g k \<noteq> None \<longrightarrow>
              tricksWon (fold (\<lambda>p g'. g'\<lparr>bids := (bids g')(p \<mapsto> None),
                               tricksWon := (tricksWon g')(p \<mapsto> Num 0),
                               hands := (hands g')(p \<mapsto> [])\<rparr>) ps g) k \<noteq> None))"
  by (induction ps arbitrary: g) auto

lemma resetForNextHand_seats:
  "playerIds (resetForNextHand g) = playerIds g"
  "totalScores (resetForNextHand g) = totalScores g"
  "streaks (resetForNextHand g) = streaks g"
  "p \<in> set (playerIds g) \<Longrightarrow> hands (resetForNextHand g) p \<noteq> None
      \<and> bids (resetForNextHand g) p \<noteq> None \<and> tricksWon (resetForNextHand g) p \<noteq> None"
  unfolding resetForNextHand_def
  using reset_fold [of "playerIds g" "g\<lparr>phase := waiting, trumpSuit := None, hands := Map.empty,
      bids := Map.empty, tricksWon := Map.empty, currentTrick := [], leadSuit := None,
      pendingPlayTurnIndex := None\<rparr>"]
  by simp_all

lemma resetForNextHand_seated:
  assumes "distinct (playerIds g)"
    and "\<forall>p \<in> set (playerIds g). totalScores g p \<noteq> None \<and> streaks g p \<noteq> None"
  shows "seated (resetForNextHand g)"
  using assms resetForNextHand_seats(1-3) [of g] resetForNextHand_seats(4) [of _ g]
  by (simp add: seated_iff)

lemma fold_defined:
  "(fold (\<lambda>p m. m(p \<mapsto> v)) ps m0) k \<noteq> None \<longleftrightarrow> k \<in> set ps \<or> m0 k \<noteq> None"
  by (induction ps arbitrary: m0) auto

lemma newGame_seated: "distinct ids \<Longrightarrow> seated (newGame ids dealer)"
  unfolding newGame_def
proof (rule resetForNextHand_seated)
  let ?g = "\<lparr>playerIds = ids, dealerIndex = dealer, schedule = buildSchedule (length ids),
        handIndex = 0,
        totalScores = fold (\<lambda>p m. m(p \<mapsto> Num 0)) ids Map.empty,
        streaks = fold (\<lambda>p m. m(p \<mapsto> \<lparr>stype = None, count = 0\<rparr>)) ids Map.empty,
        phase = waiting, trumpSuit = None, hands = Map.empty, bids = Map.empty,
        tricksWon = Map.empty, currentTrick = [], leadSuit = None,
        pendingPlayTurnIndex = None, bidTurnIndex = Num 0, playTurnIndex = None\<rparr>"
  assume "distinct ids"
  then show "distinct (playerIds ?g)" by simp
  have "totalScores ?g p \<noteq> None \<and> streaks ?g p \<noteq> None" if "p \<in> set ids" for p
    using that fold_defined [of "Num 0" ids Map.empty p]
      fold_defined [of "\<lparr>stype = None, count = 0\<rparr>" ids Map.empty p]
    by simp
  then show "\<forall>p \<in> set (playerIds ?g). totalScores ?g p \<noteq> None \<and> streaks ?g p \<noteq> None"
    by simp
qed

lemma dealRow_keysKept: "keysKept g (stateOf (dealRow st ps deck g))"
proof (induction ps arbitrary: deck g)
  case Nil
  then show ?case by (simp add: keysKept_refl)
next
  case (Cons q qs)
  let ?k = "key_of (nth_js (playerIds g) (add_mod st (int q) (numPlayers g)))"
  show ?case
  proof (cases "deck = []")
    case True
    then show ?thesis using Cons.IH by (simp add: Let_def)
  next
    case False
    show ?thesis
    proof (cases "hands g ?k")
      case None
      then show ?thesis using False by (simp add: Let_def keysKept_refl)
    next
      case (Some h)
      let ?g1 = "g\<lparr>hands := (hands g)(?k \<mapsto> h @ [last deck])\<rparr>"
      have a: "keysKept g ?g1" by (simp add: keysKept_def)
      have b: "keysKept ?g1 (stateOf (dealRow st qs (butlast deck) ?g1))" by (rule Cons.IH)
      have "stateOf (dealRow st (q # qs) deck g) = stateOf (dealRow st qs (butlast deck) ?g1)"
        using False Some by (simp add: Let_def)
      then show ?thesis using keysKept_trans [OF a b] by simp
    qed
  qed
qed

lemma dealRow_ids: "playerIds (stateOf (dealRow st ps deck g)) = playerIds g"
  using dealRow_keysKept [of g st ps deck] by (simp add: keysKept_def)

lemma dealRows_keysKept: "keysKept g (stateOf (dealRows i st deck g))"
proof (induction i arbitrary: deck g)
  case 0
  then show ?case by (simp add: keysKept_refl)
next
  case (Suc i)
  show ?case
  proof (cases "dealRow st [0 ..< numPlayers g] deck g")
    case (Returned deck' g1)
    have a: "keysKept g g1"
      using dealRow_keysKept [of g st "[0 ..< numPlayers g]" deck] Returned by simp
    have b: "keysKept g1 (stateOf (dealRows i st deck' g1))" by (rule Suc.IH)
    show ?thesis using keysKept_trans [OF a b] Returned by simp
  next
    case (Threw e g1)
    then show ?thesis
      using dealRow_keysKept [of g st "[0 ..< numPlayers g]" deck] by simp
  qed
qed

lemma sortHands_keysKept: "playerIds g = ids \<Longrightarrow> keysKept g (stateOf (sortHands ps g))"
proof (induction ps arbitrary: g)
  case Nil
  then show ?case by (simp add: keysKept_refl)
next
  case (Cons q qs)
  show ?case
  proof (cases "hands g q")
    case None
    then show ?thesis by (simp add: keysKept_refl)
  next
    case (Some h)
    let ?g1 = "g\<lparr>hands := (hands g)(q \<mapsto> sortHand h)\<rparr>"
    have a: "keysKept g ?g1" by (simp add: keysKept_def)
    have b: "keysKept ?g1 (stateOf (sortHands qs ?g1))"
      using Cons.IH Cons.prems by simp
    show ?thesis using keysKept_trans [OF a b] Some by simp
  qed
qed

lemma deal_and_sort_keysKept:
  "keysKept g1
     (stateOf (case dealRows hs st deck g1 of
                 Threw e g' \<Rightarrow> Threw e g'
               | Returned deck' g2 \<Rightarrow>
                   (case sortHands (playerIds g2) g2 of
                      Threw e g' \<Rightarrow> Threw e g'
                    | Returned u g3 \<Rightarrow>
                        Returned () (g3\<lparr>bidTurnIndex := st, phase := ph, playTurnIndex := None\<rparr>))))"
proof (cases "dealRows hs st deck g1")
  case (Threw e g2)
  then show ?thesis using dealRows_keysKept [of g1 hs st deck] by simp
next
  case (Returned deck' g2)
  have c: "keysKept g1 g2" using dealRows_keysKept [of g1 hs st deck] Returned by simp
  have d: "keysKept g2 (stateOf (sortHands (playerIds g2) g2))"
    by (rule sortHands_keysKept) simp
  show ?thesis
  proof (cases "sortHands (playerIds g2) g2")
    case (Threw e g3)
    then show ?thesis using keysKept_trans [OF c d] Returned by simp
  next
    case sorted: (Returned u g3)
    have "keysKept g3 (g3\<lparr>bidTurnIndex := st, phase := ph, playTurnIndex := None\<rparr>)"
      by (simp add: keysKept_def)
    with keysKept_trans [OF c d] sorted have
      "keysKept g1 (g3\<lparr>bidTurnIndex := st, phase := ph, playTurnIndex := None\<rparr>)"
      using keysKept_trans by simp
    then show ?thesis using Returned sorted by simp
  qed
qed

lemma startHand_keysKept: "keysKept (resetForNextHand g) (stateOf (startHand rnd g))"
proof (cases "createBaseDeck (numPlayers (resetForNextHand g))")
  case (Inl e)
  then show ?thesis by (simp add: startHand_def Let_def keysKept_refl)
next
  case (Inr base)
  let ?g = "resetForNextHand g"
  let ?deck = "shuffle rnd base"
  show ?thesis
  proof (cases "currentHandSize ?g = 8")
    case True
    then show ?thesis
      using Inr deal_and_sort_keysKept [where ?g1.0 = ?g and hs = 8
          and st = "add_mod (dealerIndex ?g) 1 (numPlayers ?g)" and deck = ?deck
          and ph = choose_trump]
      by (simp add: startHand_def Let_def)
  next
    case other: False
    show ?thesis
    proof (cases "?deck = []")
      case True
      then show ?thesis using Inr other by (simp add: startHand_def Let_def keysKept_refl)
    next
      case False
      let ?g1 = "?g\<lparr>trumpSuit := Some (suit (hd ?deck))\<rparr>"
      have a: "keysKept ?g ?g1" by (simp add: keysKept_def)
      show ?thesis
        using Inr other False
          keysKept_trans [OF a deal_and_sort_keysKept [where ?g1.0 = ?g1
              and hs = "currentHandSize ?g" and st = "add_mod (dealerIndex ?g1) 1 (numPlayers ?g1)"
              and deck = ?deck and ph = bidding]]
        by (simp add: startHand_def Let_def)
    qed
  qed
qed

lemma startHand_seated: "seated g \<Longrightarrow> seated (stateOf (startHand rnd g))"
proof -
  assume s: "seated g"
  then have "seated (resetForNextHand g)"
    by (intro resetForNextHand_seated) (simp_all add: seated_iff)
  then show ?thesis using startHand_keysKept seated_keysKept by blast
qed

lemma placeBid_keysKept: "keysKept g (stateOf (placeBid g p bid))"
  by (cases bid) (simp_all add: placeBid_def Let_def keysKept_def)

lemma chooseTrump_keysKept: "keysKept g (stateOf (chooseTrump g p suitStr))"
  by (simp add: chooseTrump_def keysKept_def split: option.splits)

lemma resumeAfterTrick_keysKept: "keysKept g (stateOf (resumeAfterTrick g))"
  by (simp add: resumeAfterTrick_def keysKept_def)

lemma scoreHand_keysKept: "keysKept g (scoreHand g)"
proof -
  have "keysKept g (fold scoreSeat ps g)" for ps
  proof (induction ps arbitrary: g)
    case Nil
    then show ?case by (simp add: keysKept_refl)
  next
    case (Cons q qs)
    have a: "keysKept g (scoreSeat q g)" by (simp add: scoreSeat_eq keysKept_def)
    have b: "keysKept (scoreSeat q g) (fold scoreSeat qs (scoreSeat q g))" by (rule Cons.IH)
    show ?case using keysKept_trans [OF a b] by simp
  qed
  then show ?thesis by (simp add: scoreHand_def)
qed

lemma scoreHand_hands: "hands (scoreHand g) = hands g"
proof -
  have "hands (fold scoreSeat ps g) = hands g" for ps
    by (induction ps arbitrary: g) (simp_all add: scoreSeat_eq)
  then show ?thesis by (simp add: scoreHand_def)
qed

lemma scoreHand_keeps:
  "(\<exists>y. totalScores g k = Some y) \<Longrightarrow> (\<exists>z. totalScores (scoreHand g) k = Some z)"
  "(\<exists>y. streaks g k = Some y) \<Longrightarrow> (\<exists>z. streaks (scoreHand g) k = Some z)"
  using scoreHand_keysKept [of g] by (auto simp: keysKept_def)

lemma playCard_keysKept: "keysKept g (stateOf (playCard g p cardStr))"
proof (cases "playCard g p cardStr")
  case (Threw e g')
  show ?thesis
  proof (cases "e = TypeError")
    case False
    then show ?thesis using playCard_atomic [OF Threw] Threw by (simp add: keysKept_refl)
  next
    case True
    then show ?thesis
      using Threw
      by (auto simp: playCard_def Let_def keysKept_def
            split: if_splits sum.splits option.splits prod.splits bool.splits)
  qed
next
  case (Returned r g')
  then show ?thesis
    by (auto simp: playCard_def Let_def keysKept_def scoreHand_frame scoreHand_hands
          scoreHand_keeps
          split: if_splits sum.splits option.splits prod.splits bool.splits)
qed

lemma nextHand_seated: "seated g \<Longrightarrow> seated (stateOf (nextHand rnd g))"
proof (cases "phase g = hand_end")
  case True
  assume "seated g"
  then have "seated (g\<lparr>handIndex := handIndex g + 1,
                       dealerIndex := add_mod (dealerIndex g) 1 (numPlayers g)\<rparr>)"
    by (simp add: seated_iff)
  then show ?thesis using True by (simp add: nextHand_def startHand_seated)
next
  case False
  assume "seated g"
  then show ?thesis using False by (simp add: nextHand_def)
qed

lemma replacePlayerId_seated:
  assumes "seated g" and "newId \<notin> set (playerIds g)"
  shows "seated (replacePlayerId g oldId newId)"
proof (cases "oldId \<noteq> newId \<and> oldId \<in> set (playerIds g)")
  case False
  then have "replacePlayerId g oldId newId = g"
    by (auto simp: replacePlayerId_def Let_def indexOf_absent)
  then show ?thesis using assms(1) by simp
next
  case True
  then have ne: "oldId \<noteq> newId" and mem: "oldId \<in> set (playerIds g)" by simp_all
  have d: "distinct (playerIds g)" using assms(1) by (simp add: seated_iff)
  note eq = replacePlayerId_fields [OF ne mem]
  have ids: "playerIds (replacePlayerId g oldId newId) = map (renamed oldId newId) (playerIds g)"
    using update_first_distinct [OF d mem] by (simp add: eq)
  have inj: "inj_on (renamed oldId newId) (set (playerIds g))"
    using assms(2) by (auto simp: inj_on_def renamed_def split: if_splits)
  have dist: "distinct (map (renamed oldId newId) (playerIds g))"
    using d inj by (simp add: distinct_map)
  have keys: "rekey m oldId newId (renamed oldId newId q) \<noteq> None"
    if "m q \<noteq> None" for m :: "string \<rightharpoonup> 'v" and q
    using that ne by (auto simp: rekey_def renamed_def split: option.splits)
  have all: "hands g q \<noteq> None \<and> bids g q \<noteq> None \<and> tricksWon g q \<noteq> None
             \<and> totalScores g q \<noteq> None \<and> streaks g q \<noteq> None" if "q \<in> set (playerIds g)" for q
    using assms(1) that by (simp add: seated_iff)
  have "hands (replacePlayerId g oldId newId) (renamed oldId newId q) \<noteq> None
        \<and> bids (replacePlayerId g oldId newId) (renamed oldId newId q) \<noteq> None
        \<and> tricksWon (replacePlayerId g oldId newId) (renamed oldId newId q) \<noteq> None
        \<and> totalScores (replacePlayerId g oldId newId) (renamed oldId newId q) \<noteq> None
        \<and> streaks (replacePlayerId g oldId newId) (renamed oldId newId q) \<noteq> None"
    if "q \<in> set (playerIds g)" for q
    using all [OF that] keys [of "hands g" q] keys [of "bids g" q] keys [of "tricksWon g" q]
      keys [of "totalScores g" q] keys [of "streaks g" q]
    by (simp add: eq)
  then show ?thesis
    unfolding seated_iff ids using dist by simp
qed

lemma reachable_seated: "reachable g \<Longrightarrow> seated g"
proof (induction rule: reachable.induct)
  case (constructed ids dealer)
  then show ?case by (rule newGame_seated)
next
  case (started g rnd)
  then show ?case by (simp add: startHand_seated)
next
  case (bid_placed g p bid)
  then show ?case using placeBid_keysKept seated_keysKept by blast
next
  case (trump_chosen g p suitStr)
  then show ?case using chooseTrump_keysKept seated_keysKept by blast
next
  case (card_played g p cardStr)
  then show ?case using playCard_keysKept seated_keysKept by blast
next
  case (hand_advanced g rnd)
  then show ?case by (simp add: nextHand_seated)
next
  case (trick_resumed g)
  then show ?case using resumeAfterTrick_keysKept seated_keysKept by blast
next
  case (rejoined g newId oldId)
  then show ?case by (simp add: replacePlayerId_seated)
qed

end
